theory Spec2Isabelle
  imports Main
begin

section \<open>JavaScript strings and numbers\<close>

text \<open>
  A JavaScript string is a sequence of UTF-16 code units; a code unit is modelled by its
  numeric value, so that the en-dash \<open>U+2013\<close> of the time-range pattern and the
  non-ASCII members of \<open>\s\<close> are ordinary characters of the model. \<open>js\<close> turns a
  literal into such a string. Where a single character is meant, its code is written:
  10 is the newline, 32 the space, 43 \<open>+\<close>, 45 the hyphen, 48 to 57 the digits, 58 the
  colon, 65 to 90 the letters \<open>A\<close> to \<open>Z\<close> (70 \<open>F\<close>, 77 \<open>M\<close>, 80 \<open>P\<close>, 82 \<open>R\<close>,
  83 \<open>S\<close>, 84 \<open>T\<close>, 85 \<open>U\<close>, 87 \<open>W\<close>), 97 to 122 the letters \<open>a\<close> to \<open>z\<close>
  (97 \<open>a\<close>, 109 \<open>m\<close>, 112 \<open>p\<close>) and 8211 the en-dash.
\<close>

type_synonym jschar = nat
type_synonym jsstring = "jschar list"

definition js :: "string \<Rightarrow> jsstring" where
  "js s = map of_char s"

text \<open>A JavaScript number, as far as this program uses them: an integer or \<open>NaN\<close>.\<close>

datatype number = NaN | Num int

fun num_lt :: "number \<Rightarrow> int \<Rightarrow> bool" where
  "num_lt NaN k = False"
| "num_lt (Num n) k = (n < k)"

fun num_eq :: "number \<Rightarrow> int \<Rightarrow> bool" where
  "num_eq NaN k = False"
| "num_eq (Num n) k = (n = k)"

fun num_add :: "number \<Rightarrow> int \<Rightarrow> number" where
  "num_add NaN k = NaN"
| "num_add (Num n) k = Num (n + k)"

text \<open>
  The character classes of the two patterns: \<open>\s\<close> (WhiteSpace and LineTerminator of
  ECMA-262, also what \<open>trim\<close> strips), \<open>\d\<close>, \<open>[MTWRFSU]\<close> and the class of the
  ASCII hyphen and the en-dash.
\<close>

definition isWhiteSpace :: "jschar \<Rightarrow> bool" where
  "isWhiteSpace c =
     (c = 9 \<or> c = 10 \<or> c = 11 \<or> c = 12 \<or> c = 13 \<or> c = 32 \<or> c = 160 \<or> c = 5760
      \<or> (8192 \<le> c \<and> c \<le> 8202) \<or> c = 8232 \<or> c = 8233 \<or> c = 8239 \<or> c = 8287
      \<or> c = 12288 \<or> c = 65279)"

definition isDigit :: "jschar \<Rightarrow> bool" where
  "isDigit c = (48 \<le> c \<and> c \<le> 57)"

definition isDayLetter :: "jschar \<Rightarrow> bool" where
  "isDayLetter c = (c = 77 \<or> c = 84 \<or> c = 87 \<or> c = 82 \<or> c = 70 \<or> c = 83 \<or> c = 85)"

definition isDash :: "jschar \<Rightarrow> bool" where
  "isDash c = (c = 45 \<or> c = 8211)"

definition isColon :: "jschar \<Rightarrow> bool" where
  "isColon c = (c = 58)"

text \<open>
  Canonicalize of ECMA-262 for the \<open>i\<close> flag without the \<open>u\<close> flag: a code unit is
  compared by its upper-case form, and a code unit of 128 or more is never mapped into
  ASCII, so against the ASCII letters of the pattern only the ASCII table matters.
\<close>

definition canonicalize :: "jschar \<Rightarrow> jschar" where
  "canonicalize c = (if 97 \<le> c \<and> c \<le> 122 then c - 32 else c)"

section \<open>Backtracking matchers\<close>

text \<open>
  A pattern is a function from the rest of the input to the list of its matches there,
  each a pair of the text consumed and the text left, in the order in which the
  backtracking matcher of ECMA-262 tries them: a greedy quantifier lists the longer
  match first, an alternation lists its left branch first.
\<close>

type_synonym matcher = "jsstring \<Rightarrow> (jsstring \<times> jsstring) list"

definition re_chr :: "(jschar \<Rightarrow> bool) \<Rightarrow> matcher" where
  "re_chr P s = (case s of [] \<Rightarrow> [] | c # cs \<Rightarrow> if P c then [([c], cs)] else [])"

definition re_eps :: matcher where
  "re_eps s = [([], s)]"

definition re_seq :: "matcher \<Rightarrow> matcher \<Rightarrow> matcher" where
  "re_seq m1 m2 s =
     concat (map (\<lambda>(a, r). map (\<lambda>(b, r'). (a @ b, r')) (m2 r)) (m1 s))"

definition re_alt :: "matcher \<Rightarrow> matcher \<Rightarrow> matcher" where
  "re_alt m1 m2 s = m1 s @ m2 s"

definition re_opt :: "matcher \<Rightarrow> matcher" where
  "re_opt m = re_alt m re_eps"

definition re_rep12 :: "matcher \<Rightarrow> matcher" where
  "re_rep12 m = re_seq m (re_opt m)"

fun re_star :: "(jschar \<Rightarrow> bool) \<Rightarrow> matcher" where
  "re_star P [] = [([], [])]"
| "re_star P (c # cs) =
     (if P c then map (\<lambda>(a, r). (c # a, r)) (re_star P cs) @ [([], c # cs)]
      else [([], c # cs)])"

definition re_plus :: "(jschar \<Rightarrow> bool) \<Rightarrow> matcher" where
  "re_plus P = re_seq (re_chr P) (re_star P)"

primrec re_str :: "jsstring \<Rightarrow> matcher" where
  "re_str [] = re_eps"
| "re_str (p # ps) = re_seq (re_chr (\<lambda>c. c = p)) (re_str ps)"

primrec re_str_ci :: "jsstring \<Rightarrow> matcher" where
  "re_str_ci [] = re_eps"
| "re_str_ci (p # ps) =
     re_seq (re_chr (\<lambda>c. canonicalize c = canonicalize p)) (re_str_ci ps)"

text \<open>
  An unanchored search tries the pattern at index 0, 1, ... up to the length of the
  string and stops at the first index where it matches.
\<close>

fun firstMatch :: "(jsstring \<Rightarrow> 'a list) \<Rightarrow> jsstring \<Rightarrow> 'a option" where
  "firstMatch m [] = (case m [] of [] \<Rightarrow> None | x # _ \<Rightarrow> Some x)"
| "firstMatch m (c # cs) = (case m (c # cs) of [] \<Rightarrow> firstMatch m cs | x # _ \<Rightarrow> Some x)"

text \<open>\<open>s.replace(re, '')\<close> for a pattern without the \<open>g\<close> flag: the first match is cut out.\<close>

fun removeFirst :: "matcher \<Rightarrow> jsstring \<Rightarrow> jsstring" where
  "removeFirst m [] = (case m [] of [] \<Rightarrow> [] | (a, r) # _ \<Rightarrow> r)"
| "removeFirst m (c # cs) =
     (case m (c # cs) of [] \<Rightarrow> c # removeFirst m cs | (a, r) # _ \<Rightarrow> r)"

section \<open>String operations of the standard library\<close>

definition trim :: "jsstring \<Rightarrow> jsstring" where
  "trim s = rev (dropWhile isWhiteSpace (rev (dropWhile isWhiteSpace s)))"

text \<open>
  \<open>toLowerCase\<close> on the alphabet the captured time tokens are made of (digits, the
  colon, \<open>\s\<close> and ASCII letters); any other code unit is left as it is.
\<close>

definition toLowerCase :: "jsstring \<Rightarrow> jsstring" where
  "toLowerCase s = map (\<lambda>c. if 65 \<le> c \<and> c \<le> 90 then c + 32 else c) s"

fun startsWith :: "jsstring \<Rightarrow> jsstring \<Rightarrow> bool" where
  "startsWith [] s = True"
| "startsWith (p # ps) [] = False"
| "startsWith (p # ps) (c # cs) = (p = c \<and> startsWith ps cs)"

fun includesStr :: "jsstring \<Rightarrow> jsstring \<Rightarrow> bool" where
  "includesStr sub [] = (sub = [])"
| "includesStr sub (c # cs) = (startsWith sub (c # cs) \<or> includesStr sub cs)"

text \<open>\<open>s.split(sep)\<close> for a one-character separator; the result is never empty.\<close>

fun splitOn :: "jschar \<Rightarrow> jsstring \<Rightarrow> jsstring list" where
  "splitOn sep [] = [[]]"
| "splitOn sep (c # cs) =
     (if c = sep then [] # splitOn sep cs
      else (case splitOn sep cs of [] \<Rightarrow> [[c]] | p # ps \<Rightarrow> (c # p) # ps))"

text \<open>\<open>parts[i]\<close>: \<open>None\<close> is \<open>undefined\<close>.\<close>

fun index :: "'a list \<Rightarrow> nat \<Rightarrow> 'a option" where
  "index [] i = None"
| "index (x # xs) 0 = Some x"
| "index (x # xs) (Suc i) = index xs i"

definition decimal :: "jsstring \<Rightarrow> int" where
  "decimal ds = foldl (\<lambda>acc d. 10 * acc + (int d - 48)) 0 ds"

text \<open>\<open>parseInt(s, 10)\<close>: leading white space, an optional sign, the longest run of digits.\<close>

definition parseInt :: "jsstring \<Rightarrow> number" where
  "parseInt s =
     (let s1 = dropWhile isWhiteSpace s;
          sign = (case s1 of [] \<Rightarrow> 1 | c # _ \<Rightarrow> if c = 45 then - 1 else 1);
          s2 = (case s1 of [] \<Rightarrow> [] | c # r \<Rightarrow> if c = 45 \<or> c = 43 then r else s1);
          ds = takeWhile isDigit s2
      in if ds = [] then NaN else Num (sign * decimal ds))"

text \<open>\<open>parts.join(sep)\<close>.\<close>

fun join :: "jsstring \<Rightarrow> jsstring list \<Rightarrow> jsstring" where
  "join sep [] = []"
| "join sep [x] = x"
| "join sep (x # y # ys) = x @ sep @ join sep (y # ys)"

section \<open>The recurrence string parser\<close>

datatype error =
    DaysNotFound
  | UnsupportedDayLetter jschar
  | TimesNotFound
  | RangeError

record timeOfDay =
  hours :: number
  minutes :: number

record RecurrencePattern =
  days :: "jsstring list"
  startTime :: timeOfDay
  endTime :: timeOfDay

definition dayMap :: "jschar \<Rightarrow> jsstring option" where
  "dayMap = map_of (map (\<lambda>(k, v). (of_char k, js v))
     [(CHR ''M'', ''MO''), (CHR ''T'', ''TU''), (CHR ''W'', ''WE''), (CHR ''R'', ''TH''),
      (CHR ''F'', ''FR''), (CHR ''S'', ''SA''), (CHR ''U'', ''SU'')])"

text \<open>\<open>/^([MTWRFSU]+)\s/\<close>, tried at index 0 only; the result is capture 1.\<close>

definition dayMatch :: "jsstring \<Rightarrow> jsstring option" where
  "dayMatch s =
     (case concat (map (\<lambda>(d, r). map (\<lambda>_. d) (re_chr isWhiteSpace r))
                       (re_plus isDayLetter s)) of
        [] \<Rightarrow> None
      | d # _ \<Rightarrow> Some d)"

text \<open>The map over the letters of the day run; the first letter without a code throws.\<close>

fun mapDays :: "jsstring \<Rightarrow> error + jsstring list" where
  "mapDays [] = Inr []"
| "mapDays (letter # ls) =
     (case dayMap letter of
        None \<Rightarrow> Inl (UnsupportedDayLetter letter)
      | Some code \<Rightarrow> (case mapDays ls of Inl e \<Rightarrow> Inl e | Inr cs \<Rightarrow> Inr (code # cs)))"

text \<open>One side of the range: \<open>\d{1,2}(?::\d{2})?\s?(?:am|pm)?\<close> under the \<open>i\<close> flag.\<close>

definition timeToken :: matcher where
  "timeToken =
     re_seq (re_rep12 (re_chr isDigit))
       (re_seq (re_opt (re_seq (re_chr isColon) (re_seq (re_chr isDigit) (re_chr isDigit))))
          (re_seq (re_opt (re_chr isWhiteSpace))
             (re_opt (re_alt (re_str_ci (js ''am'')) (re_str_ci (js ''pm''))))))"

text \<open>The whole range pattern at one index; each match is the pair of captures 1 and 2.\<close>

definition timeRangeAt :: "jsstring \<Rightarrow> (jsstring \<times> jsstring) list" where
  "timeRangeAt s =
     concat (map (\<lambda>(t1, r1).
       concat (map (\<lambda>(d, r2). map (\<lambda>(t2, r3). (t1, t2)) (timeToken r2)) (re_chr isDash r1)))
       (timeToken s))"

definition timeMatch :: "jsstring \<Rightarrow> (jsstring \<times> jsstring) option" where
  "timeMatch s = firstMatch timeRangeAt s"

text \<open>\<open>/\s?(am|pm)/\<close>, the pattern of the \<open>replace\<close> in \<open>parseTime\<close> (no \<open>i\<close> flag).\<close>

definition periodSuffix :: matcher where
  "periodSuffix =
     re_seq (re_opt (re_chr isWhiteSpace)) (re_alt (re_str (js ''am'')) (re_str (js ''pm'')))"

definition hoursOf :: "jsstring list \<Rightarrow> number" where
  "hoursOf parts = (case index parts 0 of None \<Rightarrow> NaN | Some p \<Rightarrow> parseInt p)"

definition minutesOf :: "jsstring list \<Rightarrow> number" where
  "minutesOf parts =
     (case index parts 1 of None \<Rightarrow> Num 0 | Some p \<Rightarrow> if p = [] then Num 0 else parseInt p)"

definition parseTime :: "jsstring \<Rightarrow> timeOfDay" where
  "parseTime timeStr0 =
     (let timeStr = toLowerCase (trim timeStr0) in
      if includesStr (js ''am'') timeStr \<or> includesStr (js ''pm'') timeStr then
        (let pm = includesStr (js ''pm'') timeStr;
             parts = splitOn 58 (removeFirst periodSuffix timeStr);
             h0 = hoursOf parts;
             h1 = (if pm \<and> num_lt h0 12 then num_add h0 12 else h0);
             h2 = (if \<not> pm \<and> num_eq h1 12 then Num 0 else h1)
         in \<lparr>hours = h2, minutes = minutesOf parts\<rparr>)
      else
        (let parts = splitOn 58 timeStr
         in \<lparr>hours = hoursOf parts, minutes = minutesOf parts\<rparr>))"

definition parseRecurrenceString :: "jsstring \<Rightarrow> error + RecurrencePattern" where
  "parseRecurrenceString recurrence =
     (case dayMatch recurrence of
        None \<Rightarrow> Inl DaysNotFound
      | Some daysStr \<Rightarrow>
          (case mapDays daysStr of
             Inl e \<Rightarrow> Inl e
           | Inr ds \<Rightarrow>
               (case timeMatch recurrence of
                  None \<Rightarrow> Inl TimesNotFound
                | Some (t1, t2) \<Rightarrow>
                    Inr \<lparr>days = ds, startTime = parseTime t1, endTime = parseTime t2\<rparr>)))"

section \<open>Dates\<close>

text \<open>
  A \<open>Date\<close> object is its time value: the milliseconds since the epoch, or \<open>NaN\<close> for
  an invalid date. The day and calendar arithmetic is that of ECMA-262 (Day Number, Year
  Number, Month Number, Date Number, Hours, Minutes, Seconds and Milliseconds).
\<close>

type_synonym Date = number

definition msPerDay :: int where
  "msPerDay = 86400000"

definition Day :: "int \<Rightarrow> int" where
  "Day t = t div msPerDay"

definition DaysInYear :: "int \<Rightarrow> int" where
  "DaysInYear y =
     (if y mod 4 \<noteq> 0 then 365
      else if y mod 100 \<noteq> 0 then 366
      else if y mod 400 \<noteq> 0 then 365
      else 366)"

definition DayFromYear :: "int \<Rightarrow> int" where
  "DayFromYear y =
     365 * (y - 1970) + (y - 1969) div 4 - (y - 1901) div 100 + (y - 1601) div 400"

definition TimeFromYear :: "int \<Rightarrow> int" where
  "TimeFromYear y = msPerDay * DayFromYear y"

text \<open>
  \<open>YearFromTime t\<close> is the largest \<open>y\<close> with \<open>TimeFromYear y \<le> t\<close>. The search
  goes up from a year that is not after \<open>t\<close>: no year has more than 366 days nor
  fewer than 365.
\<close>

function yearSearch :: "int \<Rightarrow> int \<Rightarrow> int" where
  "yearSearch t y = (if TimeFromYear (y + 1) \<le> t then yearSearch t (y + 1) else y)"
  by pat_completeness auto
termination
proof (relation "measure (\<lambda>(t, y). nat (t - TimeFromYear y))")
  show "wf (measure (\<lambda>(t, y). nat (t - TimeFromYear y)))"
    by simp
next
  fix t y :: int
  assume le: "TimeFromYear (y + 1) \<le> t"
  have d4: "(y - 1969) div 4 \<le> (y + 1 - 1969) div 4"
    by (rule zdiv_mono1) simp_all
  have d100: "(y + 1 - 1901) div 100 \<le> (y - 1901) div 100 + 1"
    by arith
  have d400: "(y - 1601) div 400 \<le> (y + 1 - 1601) div 400"
    by (rule zdiv_mono1) simp_all
  have mono: "a \<le> a' \<Longrightarrow> b' \<le> b + 1 \<Longrightarrow> c \<le> c' \<Longrightarrow>
      365 * (y - 1970) + a - b + c < 365 * (y + 1 - 1970) + a' - b' + c'"
    for a a' b b' c c' :: int
    by arith
  have "DayFromYear y < DayFromYear (y + 1)"
    unfolding DayFromYear_def by (rule mono [OF d4 d100 d400])
  then have "TimeFromYear y < TimeFromYear (y + 1)"
    by (simp add: TimeFromYear_def msPerDay_def)
  with le show "((t, y + 1), (t, y)) \<in> measure (\<lambda>(t, y). nat (t - TimeFromYear y))"
    by simp
qed

definition YearFromTime :: "int \<Rightarrow> int" where
  "YearFromTime t =
     yearSearch t (1970 + (if 0 \<le> t then t div (366 * msPerDay) else t div (365 * msPerDay)))"

definition InLeapYear :: "int \<Rightarrow> int" where
  "InLeapYear t = (if DaysInYear (YearFromTime t) = 366 then 1 else 0)"

definition DayWithinYear :: "int \<Rightarrow> int" where
  "DayWithinYear t = Day t - DayFromYear (YearFromTime t)"

definition MonthFromTime :: "int \<Rightarrow> int" where
  "MonthFromTime t =
     (let d = DayWithinYear t; leap = InLeapYear t in
      if d < 31 then 0
      else if d < 59 + leap then 1
      else if d < 90 + leap then 2
      else if d < 120 + leap then 3
      else if d < 151 + leap then 4
      else if d < 181 + leap then 5
      else if d < 212 + leap then 6
      else if d < 243 + leap then 7
      else if d < 273 + leap then 8
      else if d < 304 + leap then 9
      else if d < 334 + leap then 10
      else 11)"

definition DateFromTime :: "int \<Rightarrow> int" where
  "DateFromTime t =
     (let d = DayWithinYear t; leap = InLeapYear t; m = MonthFromTime t in
      if m = 0 then d + 1
      else if m = 1 then d - 30
      else if m = 2 then d - 58 - leap
      else if m = 3 then d - 89 - leap
      else if m = 4 then d - 119 - leap
      else if m = 5 then d - 150 - leap
      else if m = 6 then d - 180 - leap
      else if m = 7 then d - 211 - leap
      else if m = 8 then d - 242 - leap
      else if m = 9 then d - 272 - leap
      else if m = 10 then d - 303 - leap
      else d - 333 - leap)"

definition HourFromTime :: "int \<Rightarrow> int" where
  "HourFromTime t = (t div 3600000) mod 24"

definition MinFromTime :: "int \<Rightarrow> int" where
  "MinFromTime t = (t div 60000) mod 60"

definition SecFromTime :: "int \<Rightarrow> int" where
  "SecFromTime t = (t div 1000) mod 60"

definition msFromTime :: "int \<Rightarrow> int" where
  "msFromTime t = t mod 1000"

text \<open>
  The host's time zone is a parameter: \<open>LocalTZA t isUTC\<close> of ECMA-262, the offset of local
  time from UTC in milliseconds at the time \<open>t\<close>, which is a UTC time when \<open>isUTC\<close>
  holds and a local time otherwise.
\<close>

type_synonym timezone = "int \<Rightarrow> bool \<Rightarrow> int"

definition LocalTime :: "timezone \<Rightarrow> int \<Rightarrow> int" where
  "LocalTime tz t = t + tz t True"

definition UTC :: "timezone \<Rightarrow> int \<Rightarrow> int" where
  "UTC tz t = t - tz t False"

definition fixedOffset :: "int \<Rightarrow> timezone" where
  "fixedOffset ms = (\<lambda>t isUTC. ms)"

fun MakeTime :: "number \<Rightarrow> number \<Rightarrow> number \<Rightarrow> number \<Rightarrow> number" where
  "MakeTime (Num h) (Num m) (Num s) (Num milli) =
     Num (h * 3600000 + m * 60000 + s * 1000 + milli)"
| "MakeTime h m s milli = NaN"

definition MakeDate :: "int \<Rightarrow> int \<Rightarrow> int" where
  "MakeDate day time = day * msPerDay + time"

definition TimeClip :: "int \<Rightarrow> number" where
  "TimeClip t = (if \<bar>t\<bar> > 8640000000000000 then NaN else Num t)"

text \<open>\<open>Date.prototype.setHours(hour, min, sec, ms)\<close>, as the new time value.\<close>

definition setHours :: "timezone \<Rightarrow> Date \<Rightarrow> number \<Rightarrow> number \<Rightarrow> number \<Rightarrow> number \<Rightarrow> Date" where
  "setHours tz date h m s milli =
     (case date of
        NaN \<Rightarrow> NaN
      | Num t0 \<Rightarrow>
          (case MakeTime h m s milli of
             NaN \<Rightarrow> NaN
           | Num time \<Rightarrow> TimeClip (UTC tz (MakeDate (Day (LocalTime tz t0)) time))))"

fun getUTC :: "(int \<Rightarrow> int) \<Rightarrow> Date \<Rightarrow> number" where
  "getUTC field NaN = NaN"
| "getUTC field (Num t) = Num (field t)"

definition getUTCFullYear :: "Date \<Rightarrow> number" where
  "getUTCFullYear = getUTC YearFromTime"

definition getUTCMonth :: "Date \<Rightarrow> number" where
  "getUTCMonth = getUTC MonthFromTime"

definition getUTCDate :: "Date \<Rightarrow> number" where
  "getUTCDate = getUTC DateFromTime"

definition getUTCHours :: "Date \<Rightarrow> number" where
  "getUTCHours = getUTC HourFromTime"

definition getUTCMinutes :: "Date \<Rightarrow> number" where
  "getUTCMinutes = getUTC MinFromTime"

definition getUTCSeconds :: "Date \<Rightarrow> number" where
  "getUTCSeconds = getUTC SecFromTime"

section \<open>Numbers as text\<close>

fun natToString :: "nat \<Rightarrow> jsstring" where
  "natToString n = (if n < 10 then [48 + n] else natToString (n div 10) @ [48 + n mod 10])"

text \<open>\<open>n.toString()\<close>.\<close>

fun toString :: "number \<Rightarrow> jsstring" where
  "toString NaN = js ''NaN''"
| "toString (Num n) = (if n < 0 then 45 # natToString (nat (- n)) else natToString (nat n))"

definition padStart :: "nat \<Rightarrow> jschar \<Rightarrow> jsstring \<Rightarrow> jsstring" where
  "padStart width fill s = replicate (width - length s) fill @ s"

section \<open>The formatters\<close>

definition pad :: "number \<Rightarrow> jsstring" where
  "pad n = padStart 2 48 (toString n)"

definition formatDateTo5545 :: "Date \<Rightarrow> jsstring" where
  "formatDateTo5545 date =
     toString (getUTCFullYear date) @
     pad (num_add (getUTCMonth date) 1) @
     pad (getUTCDate date) @
     js ''T'' @
     pad (getUTCHours date) @
     pad (getUTCMinutes date) @
     pad (getUTCSeconds date) @
     js ''Z''"

definition setTime :: "timezone \<Rightarrow> Date \<Rightarrow> number \<Rightarrow> number \<Rightarrow> Date" where
  "setTime tz date hrs mins = setHours tz date hrs mins (Num 0) (Num 0)"

definition parseTo5545 :: "timezone \<Rightarrow> Date \<Rightarrow> Date \<Rightarrow> jsstring \<Rightarrow> error + jsstring" where
  "parseTo5545 tz startDate endDate recurrenceString =
     (case parseRecurrenceString recurrenceString of
        Inl e \<Rightarrow> Inl e
      | Inr pattern \<Rightarrow>
          (let dtStart = setTime tz startDate (hours (startTime pattern)) (minutes (startTime pattern));
               dtEnd = setTime tz startDate (hours (endTime pattern)) (minutes (endTime pattern));
               rrule = js ''RRULE:FREQ=WEEKLY;BYDAY='' @ join (js '','') (days pattern) @
                       js '';UNTIL='' @ formatDateTo5545 endDate
           in Inr (join [10]
                [js ''BEGIN:VEVENT'',
                 js ''DTSTART:'' @ formatDateTo5545 dtStart,
                 js ''DTEND:'' @ formatDateTo5545 dtEnd,
                 rrule,
                 js ''END:VEVENT''])))"

text \<open>
  \<open>Date.prototype.toISOString()\<close>: a \<open>RangeError\<close> for an invalid date; the year has
  four digits from 0 to 9999 and a sign and six digits otherwise.
\<close>

definition isoYear :: "int \<Rightarrow> jsstring" where
  "isoYear y =
     (if 0 \<le> y \<and> y \<le> 9999 then padStart 4 48 (natToString (nat y))
      else (if y < 0 then 45 else 43) # padStart 6 48 (natToString (nat \<bar>y\<bar>)))"

definition toISOString :: "Date \<Rightarrow> error + jsstring" where
  "toISOString date =
     (case date of
        NaN \<Rightarrow> Inl RangeError
      | Num t \<Rightarrow>
          Inr (isoYear (YearFromTime t) @ js ''-'' @
               padStart 2 48 (natToString (nat (MonthFromTime t + 1))) @ js ''-'' @
               padStart 2 48 (natToString (nat (DateFromTime t))) @ js ''T'' @
               padStart 2 48 (natToString (nat (HourFromTime t))) @ js '':'' @
               padStart 2 48 (natToString (nat (MinFromTime t))) @ js '':'' @
               padStart 2 48 (natToString (nat (SecFromTime t))) @ js ''.'' @
               padStart 3 48 (natToString (nat (msFromTime t))) @ js ''Z''))"

record recurrence8984 =
  frequency :: jsstring
  byDay :: "jsstring list"
  until :: jsstring

record event8984 =
  dtstart :: jsstring
  dtend :: jsstring
  recurrence :: recurrence8984

text \<open>The fields of the object literal are evaluated in the order they are written.\<close>

definition parseTo8984 :: "timezone \<Rightarrow> Date \<Rightarrow> Date \<Rightarrow> jsstring \<Rightarrow> error + event8984" where
  "parseTo8984 tz startDate endDate recurrenceString =
     (case parseRecurrenceString recurrenceString of
        Inl e \<Rightarrow> Inl e
      | Inr pattern \<Rightarrow>
          (let eventStart = setTime tz startDate (hours (startTime pattern)) (minutes (startTime pattern));
               eventEnd = setTime tz startDate (hours (endTime pattern)) (minutes (endTime pattern))
           in case toISOString eventStart of
                Inl e \<Rightarrow> Inl e
              | Inr s1 \<Rightarrow>
                  (case toISOString eventEnd of
                     Inl e \<Rightarrow> Inl e
                   | Inr s2 \<Rightarrow>
                       (case toISOString endDate of
                          Inl e \<Rightarrow> Inl e
                        | Inr s3 \<Rightarrow>
                            Inr \<lparr>dtstart = s1, dtend = s2,
                                 recurrence = \<lparr>frequency = js ''WEEKLY'',
                                   byDay = days pattern, until = s3\<rparr>\<rparr>))))"

section \<open>Vocabulary of the statements\<close>

text \<open>
  The four parts a text matched by \<open>timeToken\<close> is made of, in the order of the pattern:
  one or two digits, an optional colon with two digits, an optional white space
  character, and an optional marker \<open>am\<close> or \<open>pm\<close> in either case.
\<close>

fun hourDigits :: "jsstring \<Rightarrow> bool" where
  "hourDigits [a] = isDigit a"
| "hourDigits [a, b] = (isDigit a \<and> isDigit b)"
| "hourDigits ds = False"

fun minutePart :: "jsstring \<Rightarrow> bool" where
  "minutePart [] = True"
| "minutePart [c, a, b] = (c = 58 \<and> isDigit a \<and> isDigit b)"
| "minutePart cs = False"

fun spacePart :: "jsstring \<Rightarrow> bool" where
  "spacePart [] = True"
| "spacePart [w] = isWhiteSpace w"
| "spacePart ws = False"

fun marker :: "jsstring \<Rightarrow> bool" where
  "marker [x, y] = ((x = 97 \<or> x = 65 \<or> x = 112 \<or> x = 80) \<and> (y = 109 \<or> y = 77))"
| "marker mk = False"

text \<open>The minute a minute part stands for: 0 when it is absent.\<close>

definition minuteOf :: "jsstring \<Rightarrow> int" where
  "minuteOf cs = (if cs = [] then 0 else decimal (tl cs))"

text \<open>The 12-hour rule in the words of the specification, for a marker \<open>pm\<close> or \<open>am\<close>.\<close>

definition to24 :: "bool \<Rightarrow> int \<Rightarrow> int" where
  "to24 pm h = (if pm \<and> h < 12 then h + 12 else if \<not> pm \<and> h = 12 then 0 else h)"

definition isPm :: "jsstring \<Rightarrow> bool" where
  "isPm mk = (case mk of [] \<Rightarrow> False | x # _ \<Rightarrow> x = 112 \<or> x = 80)"

text \<open>A number rendered in exactly \<open>w\<close> decimal digits, the most significant first.\<close>

definition fixedWidth :: "nat \<Rightarrow> int \<Rightarrow> jsstring" where
  "fixedWidth w n = map (\<lambda>i. 48 + nat ((n div 10 ^ i) mod 10)) (rev [0..<w])"

text \<open>The host whose local time is UTC.\<close>

definition utcHost :: timezone where
  "utcHost = fixedOffset 0"

declare natToString.simps [simp del]

section \<open>Evaluation\<close>

text \<open>The definitions a concrete input is evaluated with.\<close>

lemma replicate_numeral_eq: "replicate (numeral k) x = x # replicate (pred_numeral k) x"
  by (simp add: numeral_eq_Suc)

lemmas parser_eval = js_def isWhiteSpace_def isDigit_def isDayLetter_def isDash_def isColon_def
  canonicalize_def re_chr_def re_eps_def re_seq_def re_alt_def re_opt_def re_rep12_def re_plus_def
  trim_def toLowerCase_def decimal_def parseInt_def dayMap_def dayMatch_def timeToken_def
  timeRangeAt_def timeMatch_def periodSuffix_def hoursOf_def minutesOf_def parseTime_def
  parseRecurrenceString_def Let_def

lemmas date_eval = msPerDay_def Day_def DaysInYear_def DayFromYear_def
  TimeFromYear_def YearFromTime_def InLeapYear_def DayWithinYear_def MonthFromTime_def
  DateFromTime_def HourFromTime_def MinFromTime_def SecFromTime_def msFromTime_def LocalTime_def
  UTC_def fixedOffset_def utcHost_def MakeDate_def TimeClip_def setHours_def getUTCFullYear_def
  getUTCMonth_def getUTCDate_def getUTCHours_def getUTCMinutes_def getUTCSeconds_def
  natToString.simps padStart_def pad_def formatDateTo5545_def setTime_def parseTo5545_def
  isoYear_def toISOString_def parseTo8984_def replicate_numeral_eq

section \<open>Properties of the matchers\<close>

subsection \<open>What the matchers return\<close>

lemma in_re_chr: "(a, r) \<in> set (re_chr P s) \<longleftrightarrow> (\<exists>c. s = c # r \<and> a = [c] \<and> P c)"
  by (auto simp: re_chr_def split: list.splits)

lemma in_re_eps: "(a, r) \<in> set (re_eps s) \<longleftrightarrow> a = [] \<and> r = s"
  by (auto simp: re_eps_def)

lemma in_re_seq:
  "(x, r) \<in> set (re_seq m1 m2 s) \<longleftrightarrow>
     (\<exists>a b r1. (a, r1) \<in> set (m1 s) \<and> (b, r) \<in> set (m2 r1) \<and> x = a @ b)"
  by (fastforce simp: re_seq_def)

lemma in_re_alt: "(a, r) \<in> set (re_alt m1 m2 s) \<longleftrightarrow> (a, r) \<in> set (m1 s) \<or> (a, r) \<in> set (m2 s)"
  by (simp add: re_alt_def)

lemma in_re_opt: "(a, r) \<in> set (re_opt m s) \<longleftrightarrow> (a, r) \<in> set (m s) \<or> (a = [] \<and> r = s)"
  by (simp add: re_opt_def in_re_alt in_re_eps)

lemma in_re_star: "(a, r) \<in> set (re_star P s) \<Longrightarrow> s = a @ r \<and> (\<forall>c\<in>set a. P c)"
  by (induction s arbitrary: a) (auto split: if_splits)

lemma in_re_plus: "(a, r) \<in> set (re_plus P s) \<Longrightarrow> s = a @ r \<and> a \<noteq> [] \<and> (\<forall>c\<in>set a. P c)"
proof -
  assume "(a, r) \<in> set (re_plus P s)"
  then obtain c b r1 where c: "s = c # r1" "P c" "a = c # b" and b: "(b, r) \<in> set (re_star P r1)"
    by (auto simp: re_plus_def in_re_seq in_re_chr)
  from in_re_star [OF b] c show ?thesis by auto
qed

lemma re_star_greedy:
  "\<forall>c\<in>set d. P c \<Longrightarrow> \<not> P w \<Longrightarrow> \<exists>rest. re_star P (d @ w # r) = (d, w # r) # rest"
  by (induction d) auto

lemma re_plus_greedy:
  "d \<noteq> [] \<Longrightarrow> \<forall>c\<in>set d. P c \<Longrightarrow> \<not> P w \<Longrightarrow> \<exists>rest. re_plus P (d @ w # r) = (d, w # r) # rest"
proof (cases d)
  case Nil
  assume "d \<noteq> []"
  with Nil show ?thesis by simp
next
  case (Cons c cs)
  assume a: "\<forall>c\<in>set d. P c" "\<not> P w"
  then obtain rest where "re_star P (cs @ w # r) = (cs, w # r) # rest"
    using re_star_greedy [of cs P w r] Cons by auto
  then show ?thesis using a Cons by (simp add: re_plus_def re_seq_def re_chr_def)
qed

subsection \<open>The day run\<close>

lemma dayMatch_Some: "dayMatch s = Some d \<Longrightarrow> d \<noteq> [] \<and> (\<forall>c\<in>set d. isDayLetter c)"
proof -
  assume a: "dayMatch s = Some d"
  let ?xs = "concat (map (\<lambda>(d, r). map (\<lambda>_. d) (re_chr isWhiteSpace r)) (re_plus isDayLetter s))"
  from a obtain ys where "?xs = d # ys"
    by (simp add: dayMatch_def split: list.splits)
  then have "d \<in> set ?xs"
    by (metis list.set_intros(1))
  then obtain r where "(d, r) \<in> set (re_plus isDayLetter s)"
    by auto
  then show ?thesis by (auto dest: in_re_plus)
qed

lemma white_not_dayLetter: "isWhiteSpace c \<Longrightarrow> \<not> isDayLetter c"
  by (auto simp: isDayLetter_def isWhiteSpace_def)

lemma dayMatch_run:
  assumes "d \<noteq> []" "\<forall>c\<in>set d. isDayLetter c" "isWhiteSpace w"
  shows "dayMatch (d @ w # r) = Some d"
proof -
  obtain rest where "re_plus isDayLetter (d @ w # r) = (d, w # r) # rest"
    using re_plus_greedy [OF assms(1,2) white_not_dayLetter [OF assms(3)]] by blast
  then show ?thesis using assms(3) by (simp add: dayMatch_def re_chr_def)
qed

lemma dayMap_dayLetter: "isDayLetter c \<Longrightarrow> \<exists>code. dayMap c = Some code"
  by (auto simp: isDayLetter_def dayMap_def js_def)

lemma mapDays_dayLetters:
  "\<forall>c\<in>set d. isDayLetter c \<Longrightarrow> \<exists>cs. mapDays d = Inr cs"
proof (induction d)
  case Nil
  then show ?case by simp
next
  case (Cons c d)
  then obtain code cs where "dayMap c = Some code" "mapDays d = Inr cs"
    using dayMap_dayLetter [of c] by auto
  then show ?case by simp
qed

lemma mapDays_Inr: "mapDays d = Inr cs \<Longrightarrow> map Some cs = map dayMap d"
  by (induction d arbitrary: cs) (auto split: option.splits sum.splits)

subsection \<open>The search\<close>

lemma firstMatch_Some: "firstMatch m s = Some x \<Longrightarrow> \<exists>pre suf. s = pre @ suf \<and> x \<in> set (m suf)"
proof (induction s)
  case Nil
  then show ?case by (auto split: list.splits)
next
  case (Cons c cs)
  show ?case
  proof (cases "m (c # cs)")
    case Nil
    with Cons obtain pre suf where "cs = pre @ suf" "x \<in> set (m suf)" by auto
    then have "c # cs = (c # pre) @ suf" by simp
    then show ?thesis using \<open>x \<in> set (m suf)\<close> by blast
  next
    case (Cons y ys)
    with Cons.prems have "x \<in> set (m (c # cs))" by simp
    then show ?thesis by (metis append_Nil)
  qed
qed

subsection \<open>The time tokens\<close>

lemma hourDigits_cases:
  "hourDigits ds \<Longrightarrow> (\<exists>a. ds = [a] \<and> isDigit a) \<or> (\<exists>a b. ds = [a, b] \<and> isDigit a \<and> isDigit b)"
  by (cases ds rule: hourDigits.cases) simp_all

lemma minutePart_cases:
  "minutePart cs \<Longrightarrow> cs = [] \<or> (\<exists>a b. cs = [58, a, b] \<and> isDigit a \<and> isDigit b)"
  by (cases cs rule: minutePart.cases) simp_all

lemma spacePart_cases:
  "spacePart ws \<Longrightarrow> ws = [] \<or> (\<exists>w. ws = [w] \<and> isWhiteSpace w)"
  by (cases ws rule: spacePart.cases) simp_all

lemma marker_cases:
  "marker mk \<Longrightarrow> \<exists>x y. mk = [x, y] \<and> (x = 97 \<or> x = 65 \<or> x = 112 \<or> x = 80) \<and> (y = 109 \<or> y = 77)"
  by (cases mk rule: marker.cases) simp_all

lemma in_hourDigits:
  "(ds, r) \<in> set (re_rep12 (re_chr isDigit) s) \<Longrightarrow> s = ds @ r \<and> hourDigits ds"
  by (auto simp: re_rep12_def in_re_seq in_re_opt in_re_chr)

lemma in_minutePart:
  "(cs, r) \<in> set (re_opt (re_seq (re_chr isColon) (re_seq (re_chr isDigit) (re_chr isDigit))) s)
     \<Longrightarrow> s = cs @ r \<and> minutePart cs"
  by (auto simp: in_re_seq in_re_opt in_re_chr isColon_def)

lemma in_spacePart:
  "(ws, r) \<in> set (re_opt (re_chr isWhiteSpace) s) \<Longrightarrow> s = ws @ r \<and> spacePart ws"
  by (auto simp: in_re_opt in_re_chr)

lemma canonicalize_letter:
  "canonicalize c = canonicalize 97 \<longleftrightarrow> c = 97 \<or> c = 65"
  "canonicalize c = canonicalize 109 \<longleftrightarrow> c = 109 \<or> c = 77"
  "canonicalize c = canonicalize 112 \<longleftrightarrow> c = 112 \<or> c = 80"
  by (auto simp: canonicalize_def)

lemma in_marker:
  "(mk, r) \<in> set (re_opt (re_alt (re_str_ci (js ''am'')) (re_str_ci (js ''pm''))) s)
     \<Longrightarrow> s = mk @ r \<and> (mk = [] \<or> marker mk)"
  by (auto simp: in_re_opt in_re_alt in_re_seq in_re_chr in_re_eps js_def canonicalize_letter)

lemma timeToken_shape:
  assumes "(t, r) \<in> set (timeToken s)"
  shows "s = t @ r \<and> (\<exists>ds cs ws mk. t = ds @ cs @ ws @ mk \<and> hourDigits ds \<and> minutePart cs
            \<and> spacePart ws \<and> (mk = [] \<or> marker mk))"
proof -
  from assms obtain ds r1 cs r2 ws r3 mk where
      ds: "(ds, r1) \<in> set (re_rep12 (re_chr isDigit) s)"
    and cs: "(cs, r2) \<in> set (re_opt (re_seq (re_chr isColon) (re_seq (re_chr isDigit) (re_chr isDigit))) r1)"
    and ws: "(ws, r3) \<in> set (re_opt (re_chr isWhiteSpace) r2)"
    and mk: "(mk, r) \<in> set (re_opt (re_alt (re_str_ci (js ''am'')) (re_str_ci (js ''pm''))) r3)"
    and t: "t = ds @ cs @ ws @ mk"
    unfolding timeToken_def in_re_seq by blast
  from in_hourDigits [OF ds] in_minutePart [OF cs] in_spacePart [OF ws] in_marker [OF mk] t
  show ?thesis by auto
qed

lemma timeRangeAt_shape:
  assumes "(t1, t2) \<in> set (timeRangeAt s)"
  shows "\<exists>d r. s = t1 @ d # t2 @ r \<and> isDash d \<and> (t1, d # t2 @ r) \<in> set (timeToken s)
           \<and> (t2, r) \<in> set (timeToken (t2 @ r))"
proof -
  from assms obtain r1 d r2 r3 where 1: "(t1, r1) \<in> set (timeToken s)"
    and 2: "(d, r2) \<in> set (re_chr isDash r1)" and 3: "(t2, r3) \<in> set (timeToken r2)"
    by (auto simp: timeRangeAt_def)
  from 2 obtain c where c: "r1 = c # r2" "isDash c" by (auto simp: in_re_chr)
  from timeToken_shape [OF 1] timeToken_shape [OF 3] c 1 3 show ?thesis by auto
qed

lemma timeMatch_Some:
  assumes "timeMatch s = Some (t1, t2)"
  shows "\<exists>pre d r. s = pre @ t1 @ d # t2 @ r \<and> isDash d \<and> (t1, d # t2 @ r) \<in> set (timeToken (t1 @ d # t2 @ r))
           \<and> (t2, r) \<in> set (timeToken (t2 @ r))"
proof -
  from assms obtain pre suf where s: "s = pre @ suf" and m: "(t1, t2) \<in> set (timeRangeAt suf)"
    unfolding timeMatch_def by (blast dest: firstMatch_Some)
  from timeRangeAt_shape [OF m] s show ?thesis by auto
qed

lemma timeRangeAt_nondigit: "\<not> isDigit c \<Longrightarrow> timeRangeAt (c # s) = []"
  by (simp add: timeRangeAt_def timeToken_def re_rep12_def re_seq_def re_chr_def)

lemma timeMatch_skip:
  "\<forall>c\<in>set pre. \<not> isDigit c \<Longrightarrow> timeMatch (pre @ s) = timeMatch s"
proof (induction pre)
  case Nil
  then show ?case by simp
next
  case (Cons c pre)
  then show ?case by (simp add: timeMatch_def timeRangeAt_nondigit)
qed

subsection \<open>The clock time of a token\<close>

lemma white_facts:
  assumes "isWhiteSpace w"
  shows "\<not> isDigit w" "w \<noteq> 58" "w \<noteq> 97" "w \<noteq> 112" "w \<noteq> 109" "w \<noteq> 45" "w \<noteq> 43"
    "\<not> (65 \<le> w \<and> w \<le> 90)" "58 \<noteq> w" "97 \<noteq> w" "112 \<noteq> w" "109 \<noteq> w"
  using assms unfolding isWhiteSpace_def isDigit_def by auto

lemma digit_facts:
  assumes "isDigit a"
  shows "\<not> isWhiteSpace a" "a \<noteq> 58" "a \<noteq> 97" "a \<noteq> 112" "a \<noteq> 109" "a \<noteq> 45" "a \<noteq> 43"
    "\<not> (65 \<le> a \<and> a \<le> 90)" "58 \<noteq> a" "97 \<noteq> a" "112 \<noteq> a" "109 \<noteq> a"
    "0 \<le> int a - 48" "int a - 48 \<le> 9"
  using assms unfolding isWhiteSpace_def isDigit_def by auto

lemma letter_facts:
  "\<not> isWhiteSpace 97" "\<not> isWhiteSpace 109" "\<not> isWhiteSpace 112" "\<not> isWhiteSpace 65"
  "\<not> isWhiteSpace 77" "\<not> isWhiteSpace 80" "\<not> isDigit 58" "\<not> isWhiteSpace 58"
  by (simp_all add: isWhiteSpace_def isDigit_def)

lemmas parseTime_unfold = js_def re_chr_def re_eps_def re_seq_def re_alt_def re_opt_def trim_def
  toLowerCase_def decimal_def parseInt_def periodSuffix_def hoursOf_def minutesOf_def
  parseTime_def Let_def minuteOf_def to24_def isPm_def white_facts digit_facts letter_facts

lemma parseTime_marked:
  assumes "hourDigits ds" "minutePart cs" "spacePart ws" "marker mk"
  shows "parseTime (ds @ cs @ ws @ mk) =
           \<lparr>hours = Num (to24 (isPm mk) (decimal ds)), minutes = Num (minuteOf cs)\<rparr>"
  using hourDigits_cases [OF assms(1)] minutePart_cases [OF assms(2)]
    spacePart_cases [OF assms(3)] marker_cases [OF assms(4)]
  by (elim disjE exE conjE; simp add: parseTime_unfold)

lemma parseTime_bare:
  assumes "hourDigits ds" "minutePart cs" "spacePart ws"
  shows "parseTime (ds @ cs @ ws) = \<lparr>hours = Num (decimal ds), minutes = Num (minuteOf cs)\<rparr>"
  using hourDigits_cases [OF assms(1)] minutePart_cases [OF assms(2)]
    spacePart_cases [OF assms(3)]
  by (elim disjE exE conjE; simp add: parseTime_unfold)

lemma decimal_hourDigits: "hourDigits ds \<Longrightarrow> 0 \<le> decimal ds \<and> decimal ds \<le> 99"
  by (auto dest!: hourDigits_cases simp: decimal_def isDigit_def)

lemma minuteOf_minutePart: "minutePart cs \<Longrightarrow> 0 \<le> minuteOf cs \<and> minuteOf cs \<le> 99"
  by (auto dest!: minutePart_cases simp: decimal_def isDigit_def minuteOf_def)

lemma to24_bounds: "0 \<le> h \<Longrightarrow> h \<le> 99 \<Longrightarrow> 0 \<le> to24 pm h \<and> to24 pm h \<le> 99"
  by (simp add: to24_def)

section \<open>Properties of the calendar and of the rendering\<close>

subsection \<open>Calendar arithmetic\<close>

lemma succ_div:
  fixes a k :: int
  assumes k: "0 < k"
  shows "(a + 1) div k = a div k + (if k dvd (a + 1) then 1 else 0)"
proof -
  define q where "q = a div k"
  define r where "r = a mod k"
  have a: "a = k * q + r" and r: "0 \<le> r" "r < k"
    using k by (simp_all add: q_def r_def)
  show ?thesis
  proof (cases "r + 1 = k")
    case True
    then have e: "a + 1 = k * (q + 1)"
      using a by (simp add: algebra_simps)
    then have "(a + 1) div k = q + 1" "k dvd (a + 1)"
      using k by simp_all
    then show ?thesis by (simp add: q_def)
  next
    case False
    then have lt: "r + 1 < k" using r by simp
    have e: "a + 1 = k * q + (r + 1)" using a by simp
    have "(a + 1) div k = q" unfolding e using lt r k by simp
    moreover have "(a + 1) mod k = r + 1" unfolding e using lt r k by simp
    then have "\<not> k dvd (a + 1)" using r by (simp add: dvd_eq_mod_eq_0)
    ultimately show ?thesis by (simp add: q_def)
  qed
qed

lemma dvd_shift: "k dvd m \<Longrightarrow> k dvd (y - m) \<longleftrightarrow> k dvd y" for k :: int
  by (simp add: dvd_diff_left_iff)

lemma DayFromYear_step: "DayFromYear (y + 1) = DayFromYear y + DaysInYear y"
proof -
  have d4: "(y + 1 - 1969) div 4 = (y - 1969) div 4 + (if 4 dvd y then 1 else 0)"
    using succ_div [of 4 "y - 1969"] dvd_shift [of 4 1968 y] by (simp add: algebra_simps)
  have d100: "(y + 1 - 1901) div 100 = (y - 1901) div 100 + (if 100 dvd y then 1 else 0)"
    using succ_div [of 100 "y - 1901"] dvd_shift [of 100 1900 y] by (simp add: algebra_simps)
  have d400: "(y + 1 - 1601) div 400 = (y - 1601) div 400 + (if 400 dvd y then 1 else 0)"
    using succ_div [of 400 "y - 1601"] dvd_shift [of 400 1600 y] by (simp add: algebra_simps)
  have i1: "400 dvd y \<Longrightarrow> 100 dvd y" by (rule dvd_trans [of 100 400]) simp_all
  have i2: "100 dvd y \<Longrightarrow> 4 dvd y" by (rule dvd_trans [of 4 100]) simp_all
  show ?thesis
    unfolding DayFromYear_def DaysInYear_def d4 d100 d400
    using i1 i2 by (auto simp: mod_eq_0_iff_dvd)
qed

lemma DaysInYear_bounds: "365 \<le> DaysInYear y \<and> DaysInYear y \<le> 366"
  by (simp add: DaysInYear_def)

lemma DayFromYear_upper: "0 \<le> k \<Longrightarrow> DayFromYear (1970 + k) \<le> 366 * k"
proof (induction k rule: int_ge_induct)
  case base
  then show ?case by (simp add: DayFromYear_def)
next
  case (step i)
  have "DayFromYear (1970 + (i + 1)) = DayFromYear (1970 + i) + DaysInYear (1970 + i)"
    using DayFromYear_step [of "1970 + i"] by (simp add: add.assoc)
  then show ?case using step DaysInYear_bounds [of "1970 + i"] by simp
qed

lemma DayFromYear_lower: "k \<le> 0 \<Longrightarrow> DayFromYear (1970 + k) \<le> 365 * k"
proof (induction k rule: int_le_induct)
  case base
  then show ?case by (simp add: DayFromYear_def)
next
  case (step i)
  have "DayFromYear (1970 + i) = DayFromYear (1970 + (i - 1)) + DaysInYear (1970 + (i - 1))"
    using DayFromYear_step [of "1970 + (i - 1)"] by simp
  then show ?case using step DaysInYear_bounds [of "1970 + (i - 1)"] by simp
qed

lemma yearSearch_spec:
  "TimeFromYear y \<le> t \<Longrightarrow>
     TimeFromYear (yearSearch t y) \<le> t \<and> t < TimeFromYear (yearSearch t y + 1)"
proof (induction t y rule: yearSearch.induct)
  case (1 t y)
  show ?case
  proof (cases "TimeFromYear (y + 1) \<le> t")
    case True
    then show ?thesis using "1.IH" by simp
  next
    case False
    then show ?thesis using "1.prems" by simp
  qed
qed

lemma estimate_le:
  "TimeFromYear (1970 + (if 0 \<le> t then t div (366 * msPerDay) else t div (365 * msPerDay))) \<le> t"
proof (cases "0 \<le> t")
  case True
  define k where "k = t div (366 * msPerDay)"
  have k: "0 \<le> k"
    using True by (simp add: k_def msPerDay_def pos_imp_zdiv_nonneg_iff)
  have "msPerDay * DayFromYear (1970 + k) \<le> msPerDay * (366 * k)"
    using DayFromYear_upper [OF k] by (simp add: msPerDay_def)
  also have "\<dots> = (366 * msPerDay) * (t div (366 * msPerDay))"
    by (simp add: k_def)
  also have "\<dots> \<le> t"
    by (simp add: msPerDay_def) 
  finally show ?thesis using True by (simp add: TimeFromYear_def k_def)
next
  case False
  define k where "k = t div (365 * msPerDay)"
  have k: "k \<le> 0"
    using False div_neg_pos_less0 [of t "365 * msPerDay"] by (simp add: k_def msPerDay_def)
  have "msPerDay * DayFromYear (1970 + k) \<le> msPerDay * (365 * k)"
    using DayFromYear_lower [OF k] by (simp add: msPerDay_def)
  also have "\<dots> = (365 * msPerDay) * (t div (365 * msPerDay))"
    by (simp add: k_def)
  also have "\<dots> \<le> t"
    by (simp add: msPerDay_def)
  finally show ?thesis using False by (simp add: TimeFromYear_def k_def)
qed

lemma YearFromTime_spec:
  "TimeFromYear (YearFromTime t) \<le> t \<and> t < TimeFromYear (YearFromTime t + 1)"
  unfolding YearFromTime_def by (rule yearSearch_spec [OF estimate_le])

lemma Day_YearFromTime:
  "DayFromYear (YearFromTime t) \<le> Day t \<and> Day t < DayFromYear (YearFromTime t + 1)"
proof -
  have a: "86400000 * d \<le> t \<longleftrightarrow> d \<le> t div 86400000" for d :: int by arith
  have b: "t < 86400000 * d \<longleftrightarrow> t div 86400000 < d" for d :: int by arith
  show ?thesis
    using YearFromTime_spec [of t] by (simp add: TimeFromYear_def Day_def msPerDay_def a b)
qed

lemma DayWithinYear_range:
  "0 \<le> DayWithinYear t \<and> DayWithinYear t < 365 + InLeapYear t"
proof -
  have "DaysInYear y = 365 + (if DaysInYear y = 366 then 1 else 0)" for y
    by (simp add: DaysInYear_def)
  then show ?thesis
    using Day_YearFromTime [of t] DayFromYear_step [of "YearFromTime t"]
    by (simp add: DayWithinYear_def InLeapYear_def)
qed

lemma InLeapYear_range: "InLeapYear t = 0 \<or> InLeapYear t = 1"
  by (simp add: InLeapYear_def)

lemma MonthFromTime_range: "0 \<le> MonthFromTime t \<and> MonthFromTime t \<le> 11"
  by (simp add: MonthFromTime_def Let_def)

lemma DateFromTime_range: "1 \<le> DateFromTime t \<and> DateFromTime t \<le> 31"
  using DayWithinYear_range [of t] InLeapYear_range [of t]
  by (auto simp: DateFromTime_def MonthFromTime_def Let_def split: if_splits)

lemma HourFromTime_range: "0 \<le> HourFromTime t \<and> HourFromTime t \<le> 23"
  by (simp add: HourFromTime_def) 

lemma MinFromTime_range: "0 \<le> MinFromTime t \<and> MinFromTime t \<le> 59"
  by (simp add: MinFromTime_def)

lemma SecFromTime_range: "0 \<le> SecFromTime t \<and> SecFromTime t \<le> 59"
  by (simp add: SecFromTime_def)

subsection \<open>Numbers as text\<close>

lemma natToString_1: "n < 10 \<Longrightarrow> natToString n = [48 + n]"
  by (subst natToString.simps) simp

lemma natToString_2: "10 \<le> n \<Longrightarrow> n < 100 \<Longrightarrow> natToString n = [48 + n div 10, 48 + n mod 10]"
  by (subst natToString.simps) (simp add: natToString_1)

lemma natToString_3:
  "100 \<le> n \<Longrightarrow> n < 1000 \<Longrightarrow> natToString n = [48 + n div 100, 48 + n div 10 mod 10, 48 + n mod 10]"
  by (subst natToString.simps) (simp add: natToString_2 div_mult2_eq [symmetric])

lemma natToString_4:
  "1000 \<le> n \<Longrightarrow> n < 10000 \<Longrightarrow>
     natToString n = [48 + n div 1000, 48 + n div 100 mod 10, 48 + n div 10 mod 10, 48 + n mod 10]"
  by (subst natToString.simps) (simp add: natToString_3 div_mult2_eq [symmetric])

lemma natToString_digits: "\<forall>c\<in>set (natToString n). 48 \<le> c \<and> c \<le> 57"
proof (induction n rule: natToString.induct)
  case (1 n)
  show ?case
  proof (cases "n < 10")
    case True
    then show ?thesis by (simp add: natToString_1)
  next
    case False
    have "n mod 10 < 10" by simp
    then have "48 + n mod 10 \<le> 57" by linarith
    then show ?thesis
      using False "1.IH" by (subst natToString.simps) auto
  qed
qed

lemma fixedWidth_2: "fixedWidth 2 n = [48 + nat (n div 10 mod 10), 48 + nat (n mod 10)]"
  by (simp add: fixedWidth_def numeral_2_eq_2)

lemma fixedWidth_4:
  "fixedWidth 4 n = [48 + nat (n div 1000 mod 10), 48 + nat (n div 100 mod 10),
                     48 + nat (n div 10 mod 10), 48 + nat (n mod 10)]"
  by (simp add: fixedWidth_def eval_nat_numeral)

lemma pad_fixedWidth: "0 \<le> n \<Longrightarrow> n \<le> 99 \<Longrightarrow> pad (Num n) = fixedWidth 2 n"
proof (cases "n < 10")
  case True
  assume "0 \<le> n" "n \<le> 99"
  with True have "natToString (nat n) = [48 + nat n]" by (simp add: natToString_1)
  with True \<open>0 \<le> n\<close> show ?thesis
    by (simp add: pad_def padStart_def fixedWidth_2)
next
  case False
  assume "0 \<le> n" "n \<le> 99"
  with False have "natToString (nat n) = [48 + nat n div 10, 48 + nat n mod 10]"
    by (simp add: natToString_2)
  with False \<open>0 \<le> n\<close> \<open>n \<le> 99\<close> show ?thesis
    by (simp add: pad_def padStart_def fixedWidth_2 nat_div_distrib nat_mod_distrib)
qed

lemma toString_fixedWidth: "1000 \<le> n \<Longrightarrow> n \<le> 9999 \<Longrightarrow> toString (Num n) = fixedWidth 4 n"
proof -
  assume a: "1000 \<le> n" "n \<le> 9999"
  have 1: "nat n div 1000 = nat (n div 1000 mod 10)"
    using a by (simp add: nat_div_distrib)
  have 2: "nat n div 100 mod 10 = nat (n div 100 mod 10)"
    using a by (simp add: nat_div_distrib nat_mod_distrib)
  have 3: "nat n div 10 mod 10 = nat (n div 10 mod 10)"
    using a by (simp add: nat_div_distrib nat_mod_distrib)
  have 4: "nat n mod 10 = nat (n mod 10)"
    using a by (simp add: nat_mod_distrib)
  have "toString (Num n) = natToString (nat n)"
    using a by simp
  also have "\<dots> =
      [48 + nat n div 1000, 48 + nat n div 100 mod 10, 48 + nat n div 10 mod 10, 48 + nat n mod 10]"
    using a by (simp add: natToString_4)
  also have "\<dots> = fixedWidth 4 n"
    unfolding fixedWidth_4 1 2 3 4 ..
  finally show ?thesis .
qed

lemma toString_no_newline: "10 \<notin> set (toString x)"
proof (cases x)
  case NaN
  then show ?thesis by (simp add: js_def)
next
  case (Num n)
  have "10 \<notin> set (natToString k)" for k
    using natToString_digits [of k] by auto
  then show ?thesis using Num by simp
qed

lemma pad_no_newline: "10 \<notin> set (pad x)"
  using toString_no_newline [of x] by (simp add: pad_def padStart_def)

lemma formatDateTo5545_no_newline: "10 \<notin> set (formatDateTo5545 d)"
  by (simp add: formatDateTo5545_def toString_no_newline pad_no_newline js_def)

lemma formatDateTo5545_fixed:
  assumes "1000 \<le> YearFromTime t" "YearFromTime t \<le> 9999"
  shows "formatDateTo5545 (Num t) =
           fixedWidth 4 (YearFromTime t) @ fixedWidth 2 (MonthFromTime t + 1) @
           fixedWidth 2 (DateFromTime t) @ js ''T'' @ fixedWidth 2 (HourFromTime t) @
           fixedWidth 2 (MinFromTime t) @ fixedWidth 2 (SecFromTime t) @ js ''Z''"
proof -
  have "toString (getUTCFullYear (Num t)) = fixedWidth 4 (YearFromTime t)"
    using toString_fixedWidth [OF assms] by (simp add: getUTCFullYear_def del: toString.simps)
  moreover have "pad (num_add (getUTCMonth (Num t)) 1) = fixedWidth 2 (MonthFromTime t + 1)"
    using MonthFromTime_range [of t] by (simp add: getUTCMonth_def pad_fixedWidth)
  moreover have "pad (getUTCDate (Num t)) = fixedWidth 2 (DateFromTime t)"
    using DateFromTime_range [of t] by (simp add: getUTCDate_def pad_fixedWidth)
  moreover have "pad (getUTCHours (Num t)) = fixedWidth 2 (HourFromTime t)"
    using HourFromTime_range [of t] by (simp add: getUTCHours_def pad_fixedWidth)
  moreover have "pad (getUTCMinutes (Num t)) = fixedWidth 2 (MinFromTime t)"
    using MinFromTime_range [of t] by (simp add: getUTCMinutes_def pad_fixedWidth)
  moreover have "pad (getUTCSeconds (Num t)) = fixedWidth 2 (SecFromTime t)"
    using SecFromTime_range [of t] by (simp add: getUTCSeconds_def pad_fixedWidth)
  ultimately show ?thesis by (simp add: formatDateTo5545_def)
qed

subsection \<open>Lines\<close>

lemma splitOn_none: "c \<notin> set a \<Longrightarrow> splitOn c a = [a]"
  by (induction a) auto

lemma splitOn_append: "c \<notin> set a \<Longrightarrow> splitOn c (a @ c # b) = a # splitOn c b"
  by (induction a) auto

section \<open>The claims\<close>

subsection \<open>Helper facts on the parser\<close>

lemma parse_Inr:
  assumes "parseRecurrenceString s = Inr p"
  shows "\<exists>d t1 t2. dayMatch s = Some d \<and> mapDays d = Inr (days p) \<and> timeMatch s = Some (t1, t2)
           \<and> startTime p = parseTime t1 \<and> endTime p = parseTime t2"
  using assms
  by (auto simp: parseRecurrenceString_def split: option.splits sum.splits prod.splits)

lemma token_time:
  assumes "(t, r) \<in> set (timeToken s)"
  shows "\<exists>h m. parseTime t = \<lparr>hours = Num h, minutes = Num m\<rparr>
           \<and> 0 \<le> h \<and> h \<le> 99 \<and> 0 \<le> m \<and> m \<le> 99"
proof -
  from timeToken_shape [OF assms] obtain ds cs ws mk where
    t: "t = ds @ cs @ ws @ mk" and ds: "hourDigits ds" and cs: "minutePart cs"
    and ws: "spacePart ws" and mk: "mk = [] \<or> marker mk"
    by blast
  from mk show ?thesis
  proof
    assume "mk = []"
    then have "parseTime t = \<lparr>hours = Num (decimal ds), minutes = Num (minuteOf cs)\<rparr>"
      using parseTime_bare [OF ds cs ws] t by simp
    then show ?thesis
      using decimal_hourDigits [OF ds] minuteOf_minutePart [OF cs] by simp
  next
    assume "marker mk"
    then have "parseTime t =
        \<lparr>hours = Num (to24 (isPm mk) (decimal ds)), minutes = Num (minuteOf cs)\<rparr>"
      using parseTime_marked [OF ds cs ws] t by simp
    moreover have "0 \<le> to24 (isPm mk) (decimal ds) \<and> to24 (isPm mk) (decimal ds) \<le> 99"
      using decimal_hourDigits [OF ds] by (simp add: to24_bounds)
    ultimately show ?thesis
      using minuteOf_minutePart [OF cs] by simp
  qed
qed

text \<open>
  C9. The branch that throws for a day letter without a code is dead: whatever the input,
  every letter of the run that the day pattern captures is a key of the day code table,
  and the parser does not fail with the unsupported-day-letter error.
\<close>

theorem unsupported_day_letter_unreachable:
  "(\<forall>d. dayMatch s = Some d \<longrightarrow> (\<forall>letter\<in>set d. dayMap letter \<noteq> None))
   \<and> parseRecurrenceString s \<noteq> Inl (UnsupportedDayLetter c)"
proof -
  have keys: "\<forall>letter\<in>set d. dayMap letter \<noteq> None" if "dayMatch s = Some d" for d
    using dayMatch_Some [OF that] dayMap_dayLetter by fastforce
  have "parseRecurrenceString s \<noteq> Inl (UnsupportedDayLetter c)"
  proof (cases "dayMatch s")
    case None
    then show ?thesis by (simp add: parseRecurrenceString_def)
  next
    case (Some d)
    then have "\<forall>x\<in>set d. isDayLetter x"
      by (simp add: dayMatch_Some)
    then obtain cs where "mapDays d = Inr cs"
      using mapDays_dayLetters by blast
    then show ?thesis
      using Some by (simp add: parseRecurrenceString_def split: option.splits prod.splits)
  qed
  with keys show ?thesis by blast
qed

theorem unsupported_day_letter_unreachable_witness:
  "dayMatch (js ''TR 11am-12:15pm'') = Some (js ''TR'')
   \<and> dayMap 84 = Some (js ''TU'') \<and> dayMap 82 = Some (js ''TH'')
   \<and> parseRecurrenceString (js ''TR 11am-12:15pm'') \<noteq> Inl (UnsupportedDayLetter 84)
   \<and> parseRecurrenceString (js ''TXR 11am-12:15pm'') \<noteq> Inl (UnsupportedDayLetter 88)
   \<and> parseRecurrenceString (js ''TXR 11am-12:15pm'') = Inl DaysNotFound"
  using unsupported_day_letter_unreachable [of "js ''TR 11am-12:15pm''" 84]
    unsupported_day_letter_unreachable [of "js ''TXR 11am-12:15pm''" 88]
  by (simp add: parser_eval)

text \<open>
  C5. For a non-empty run \<open>D\<close> of day letters, a space and a text in which the time-range
  pattern matches, the parser succeeds, and the days of the pattern are the codes of the
  letters of \<open>D\<close>, one for each letter, in the order typed, duplicates kept.
\<close>

theorem days_follow_letters:
  assumes "D \<noteq> []" and "\<forall>c\<in>set D. isDayLetter c" and "timeMatch rng \<noteq> None"
  shows "\<exists>p. parseRecurrenceString (D @ 32 # rng) = Inr p
           \<and> length (days p) = length D
           \<and> map Some (days p) = map dayMap D"
proof -
  have w: "isWhiteSpace 32" by (simp add: isWhiteSpace_def)
  have d: "dayMatch (D @ 32 # rng) = Some D"
    using dayMatch_run [OF assms(1,2) w] .
  obtain cs where cs: "mapDays D = Inr cs"
    using mapDays_dayLetters [OF assms(2)] by blast
  have "\<forall>c\<in>set (D @ [32]). \<not> isDigit c"
    using assms(2) by (auto simp: isDayLetter_def isDigit_def)
  then have "timeMatch ((D @ [32]) @ rng) = timeMatch rng"
    by (rule timeMatch_skip)
  then obtain t1 t2 where t: "timeMatch (D @ 32 # rng) = Some (t1, t2)"
    using assms(3) by auto
  have "parseRecurrenceString (D @ 32 # rng) =
      Inr \<lparr>days = cs, startTime = parseTime t1, endTime = parseTime t2\<rparr>"
    using d cs t by (simp add: parseRecurrenceString_def)
  moreover have "map Some cs = map dayMap D"
    using mapDays_Inr [OF cs] .
  moreover from this have "length cs = length D"
    by (metis length_map)
  ultimately show ?thesis by simp
qed

theorem days_follow_letters_witness:
  "js ''TRT'' \<noteq> [] \<and> list_all isDayLetter (js ''TRT'') \<and> timeMatch (js ''2pm-3:15pm'') \<noteq> None
   \<and> parseRecurrenceString (js ''TRT 2pm-3:15pm'') =
       Inr \<lparr>days = [js ''TU'', js ''TH'', js ''TU''],
            startTime = \<lparr>hours = Num 14, minutes = Num 0\<rparr>,
            endTime = \<lparr>hours = Num 15, minutes = Num 15\<rparr>\<rparr>"
proof -
  have 1: "js ''TRT'' \<noteq> []" by (simp add: js_def)
  have 2: "\<forall>c\<in>set (js ''TRT''). isDayLetter c" by (simp add: js_def isDayLetter_def)
  have 3: "timeMatch (js ''2pm-3:15pm'') \<noteq> None" by (simp add: parser_eval)
  show ?thesis
    using days_follow_letters [OF 1 2 3] by (simp add: parser_eval)
qed

text \<open>
  C6. A token with a marker is normalised by the 12-hour rule: the marker is stripped, the
  digits before the colon are the hour and the two digits after it the minute, 0 when
  there is no colon; with \<open>pm\<close> an hour below 12 gains 12, with \<open>am\<close> the hour 12
  becomes 0. So \<open>12am\<close> is hour 0, \<open>12pm\<close> hour 12, \<open>1pm\<close> hour 13, \<open>9am\<close> has
  minute 0 and \<open>9:15am\<close> minute 15.
\<close>

theorem time_normalization:
  assumes "hourDigits ds" and "minutePart cs" and "spacePart ws" and "marker mk"
  shows "parseTime (ds @ cs @ ws @ mk) =
           \<lparr>hours = Num (to24 (isPm mk) (decimal ds)), minutes = Num (minuteOf cs)\<rparr>
         \<and> hours (parseTime (js ''12am'')) = Num 0
         \<and> hours (parseTime (js ''12pm'')) = Num 12
         \<and> hours (parseTime (js ''1pm'')) = Num 13
         \<and> minutes (parseTime (js ''9am'')) = Num 0
         \<and> minutes (parseTime (js ''9:15am'')) = Num 15"
proof -
  have "hours (parseTime (js ''12am'')) = Num 0"
    by (simp add: parser_eval)
  moreover have "hours (parseTime (js ''12pm'')) = Num 12"
    by (simp add: parser_eval)
  moreover have "hours (parseTime (js ''1pm'')) = Num 13"
    by (simp add: parser_eval)
  moreover have "minutes (parseTime (js ''9am'')) = Num 0"
    by (simp add: parser_eval)
  moreover have "minutes (parseTime (js ''9:15am'')) = Num 15"
    by (simp add: parser_eval)
  ultimately show ?thesis
    using parseTime_marked [OF assms] by simp
qed

theorem time_normalization_witness:
  "hourDigits (js ''9'') \<and> minutePart (js '':15'') \<and> spacePart (js '' '') \<and> marker (js ''PM'')
   \<and> parseTime (js ''9:15 PM'') = \<lparr>hours = Num 21, minutes = Num 15\<rparr>"
proof -
  have 1: "hourDigits (js ''9'')" by (simp add: js_def isDigit_def)
  have 2: "minutePart (js '':15'')" by (simp add: js_def isDigit_def)
  have 3: "spacePart (js '' '')" by (simp add: js_def isWhiteSpace_def)
  have 4: "marker (js ''PM'')" by (simp add: js_def)
  show ?thesis
    using time_normalization [OF 1 2 3 4] 1 2 3 4
    by (simp add: js_def to24_def isPm_def minuteOf_def decimal_def)
qed

text \<open>
  C7. When the first token of the matched range has no marker, its digits are taken as
  they are: the hour is the number before the colon and is not adjusted, whatever the
  second token carries. In \<open>M 11-12:15pm\<close> the start is 11:00, not 23:00.
\<close>

theorem first_token_bare:
  assumes "timeMatch s = Some (ds @ cs @ ws, t2)"
    and "hourDigits ds" and "minutePart cs" and "spacePart ws"
    and "parseRecurrenceString s = Inr p"
  shows "startTime p = \<lparr>hours = Num (decimal ds), minutes = Num (minuteOf cs)\<rparr>
         \<and> parseRecurrenceString (js ''M 11-12:15pm'') =
             Inr \<lparr>days = [js ''MO''],
                  startTime = \<lparr>hours = Num 11, minutes = Num 0\<rparr>,
                  endTime = \<lparr>hours = Num 12, minutes = Num 15\<rparr>\<rparr>"
proof -
  from parse_Inr [OF assms(5)] assms(1) have "startTime p = parseTime (ds @ cs @ ws)"
    by auto
  then have "startTime p = \<lparr>hours = Num (decimal ds), minutes = Num (minuteOf cs)\<rparr>"
    using parseTime_bare [OF assms(2,3,4)] by simp
  moreover have "parseRecurrenceString (js ''M 11-12:15pm'') =
      Inr \<lparr>days = [js ''MO''],
           startTime = \<lparr>hours = Num 11, minutes = Num 0\<rparr>,
           endTime = \<lparr>hours = Num 12, minutes = Num 15\<rparr>\<rparr>"
    by (simp add: parser_eval)
  ultimately show ?thesis by simp
qed

theorem first_token_bare_witness:
  "timeMatch (js ''R 9:05 -1:15pm'') = Some (js ''9'' @ js '':05'' @ js '' '', js ''1:15pm'')
   \<and> hourDigits (js ''9'') \<and> minutePart (js '':05'') \<and> spacePart (js '' '')
   \<and> parseRecurrenceString (js ''R 9:05 -1:15pm'') =
        Inr \<lparr>days = [js ''TH''],
             startTime = \<lparr>hours = Num 9, minutes = Num 5\<rparr>,
             endTime = \<lparr>hours = Num 13, minutes = Num 15\<rparr>\<rparr>
   \<and> startTime \<lparr>days = [js ''TH''],
             startTime = \<lparr>hours = Num 9, minutes = Num 5\<rparr>,
             endTime = \<lparr>hours = Num 13, minutes = Num 15\<rparr>\<rparr> =
        \<lparr>hours = Num (decimal (js ''9'')), minutes = Num (minuteOf (js '':05''))\<rparr>"
proof -
  have 1: "timeMatch (js ''R 9:05 -1:15pm'') = Some (js ''9'' @ js '':05'' @ js '' '', js ''1:15pm'')"
    by (simp add: parser_eval)
  have 2: "hourDigits (js ''9'')" by (simp add: js_def isDigit_def)
  have 3: "minutePart (js '':05'')" by (simp add: js_def isDigit_def)
  have 4: "spacePart (js '' '')" by (simp add: js_def isWhiteSpace_def)
  have 5: "parseRecurrenceString (js ''R 9:05 -1:15pm'') =
        Inr \<lparr>days = [js ''TH''],
             startTime = \<lparr>hours = Num 9, minutes = Num 5\<rparr>,
             endTime = \<lparr>hours = Num 13, minutes = Num 15\<rparr>\<rparr>"
    by (simp add: parser_eval)
  show ?thesis
    using first_token_bare [OF 1 2 3 4 5] 1 2 3 4 5 by simp
qed

text \<open>
  C3, as the code has it. The parser checks no range: an hour and a minute are what one
  or two decimal digits spell, so each lies between 0 and 99, and \<open>M 99:99-10\<close> is
  parsed with the start time 99:99.
\<close>

theorem parsed_times_two_digits:
  assumes "parseRecurrenceString s = Inr p"
  shows "\<exists>h1 m1 h2 m2.
           startTime p = \<lparr>hours = Num h1, minutes = Num m1\<rparr>
           \<and> endTime p = \<lparr>hours = Num h2, minutes = Num m2\<rparr>
           \<and> 0 \<le> h1 \<and> h1 \<le> 99 \<and> 0 \<le> m1 \<and> m1 \<le> 99
           \<and> 0 \<le> h2 \<and> h2 \<le> 99 \<and> 0 \<le> m2 \<and> m2 \<le> 99"
proof -
  from parse_Inr [OF assms] obtain t1 t2 where m: "timeMatch s = Some (t1, t2)"
    and st: "startTime p = parseTime t1" and en: "endTime p = parseTime t2"
    by blast
  from timeMatch_Some [OF m] obtain d r where
    1: "(t1, d # t2 @ r) \<in> set (timeToken (t1 @ d # t2 @ r))"
    and 2: "(t2, r) \<in> set (timeToken (t2 @ r))"
    by blast
  from token_time [OF 1] token_time [OF 2] st en show ?thesis
    by metis
qed

theorem parsed_times_two_digits_witness:
  "parseRecurrenceString (js ''F 1pm-3:50pm'') =
     Inr \<lparr>days = [js ''FR''],
          startTime = \<lparr>hours = Num 13, minutes = Num 0\<rparr>,
          endTime = \<lparr>hours = Num 15, minutes = Num 50\<rparr>\<rparr>
   \<and> (\<exists>h1 m1 h2 m2.
         \<lparr>hours = Num 13, minutes = Num 0\<rparr> = \<lparr>hours = Num h1, minutes = Num m1\<rparr>
         \<and> \<lparr>hours = Num 15, minutes = Num 50\<rparr> = \<lparr>hours = Num h2, minutes = Num m2\<rparr>
         \<and> 0 \<le> h1 \<and> h1 \<le> 99 \<and> 0 \<le> m1 \<and> m1 \<le> 99
         \<and> 0 \<le> h2 \<and> h2 \<le> 99 \<and> 0 \<le> m2 \<and> m2 \<le> 99)"
proof -
  have 1: "parseRecurrenceString (js ''F 1pm-3:50pm'') =
     Inr \<lparr>days = [js ''FR''],
          startTime = \<lparr>hours = Num 13, minutes = Num 0\<rparr>,
          endTime = \<lparr>hours = Num 15, minutes = Num 50\<rparr>\<rparr>"
    by (simp add: parser_eval)
  show ?thesis
    using parsed_times_two_digits [OF 1] 1 by simp
qed

theorem hour_and_minute_out_of_range:
  "parseRecurrenceString (js ''M 99:99-10'') =
     Inr \<lparr>days = [js ''MO''],
          startTime = \<lparr>hours = Num 99, minutes = Num 99\<rparr>,
          endTime = \<lparr>hours = Num 10, minutes = Num 0\<rparr>\<rparr>"
  by (simp add: parser_eval)

subsection \<open>A dash after white space\<close>









text \<open>
  C4, as the code has it. The year is written by \<open>toString\<close> with no padding, so it has
  four digits only from 1000 to 9999. For a date in those years the text is the year in
  four digits, the month (counted from 1), the day, a \<open>T\<close>, the hour, the minute and the
  second in two digits each, all in UTC, and a \<open>Z\<close>: sixteen characters.
\<close>

theorem formatDateTo5545_shape:
  assumes "1000 \<le> YearFromTime t" and "YearFromTime t \<le> 9999"
  shows "formatDateTo5545 (Num t) =
           fixedWidth 4 (YearFromTime t) @ fixedWidth 2 (MonthFromTime t + 1) @
           fixedWidth 2 (DateFromTime t) @ js ''T'' @ fixedWidth 2 (HourFromTime t) @
           fixedWidth 2 (MinFromTime t) @ fixedWidth 2 (SecFromTime t) @ js ''Z''
         \<and> length (formatDateTo5545 (Num t)) = 16
         \<and> 1 \<le> MonthFromTime t + 1 \<and> MonthFromTime t + 1 \<le> 12
         \<and> 1 \<le> DateFromTime t \<and> DateFromTime t \<le> 31
         \<and> 0 \<le> HourFromTime t \<and> HourFromTime t \<le> 23
         \<and> 0 \<le> MinFromTime t \<and> MinFromTime t \<le> 59
         \<and> 0 \<le> SecFromTime t \<and> SecFromTime t \<le> 59"
proof -
  have "length (fixedWidth w n) = w" for w n
    by (simp add: fixedWidth_def)
  then have "length (formatDateTo5545 (Num t)) = 16"
    by (simp add: formatDateTo5545_fixed [OF assms] js_def)
  then show ?thesis
    using formatDateTo5545_fixed [OF assms] MonthFromTime_range [of t] DateFromTime_range [of t]
      HourFromTime_range [of t] MinFromTime_range [of t] SecFromTime_range [of t]
    by simp
qed

theorem formatDateTo5545_shape_witness:
  "1000 \<le> YearFromTime 1749599999000 \<and> YearFromTime 1749599999000 \<le> 9999
   \<and> formatDateTo5545 (Num 1749599999000) = js ''20250610T235959Z''
   \<and> fixedWidth 4 (YearFromTime 1749599999000) = js ''2025''
   \<and> fixedWidth 2 (MonthFromTime 1749599999000 + 1) = js ''06''
   \<and> fixedWidth 2 (DateFromTime 1749599999000) = js ''10''
   \<and> fixedWidth 2 (HourFromTime 1749599999000) = js ''23''
   \<and> fixedWidth 2 (MinFromTime 1749599999000) = js ''59''
   \<and> fixedWidth 2 (SecFromTime 1749599999000) = js ''59''"
proof -
  have y: "YearFromTime 1749599999000 = 2025"
    by (simp add: date_eval)
  have 1: "1000 \<le> YearFromTime 1749599999000" and 2: "YearFromTime 1749599999000 \<le> 9999"
    by (simp_all add: y)
  have f: "fixedWidth 4 (YearFromTime 1749599999000) = js ''2025''"
    "fixedWidth 2 (MonthFromTime 1749599999000 + 1) = js ''06''"
    "fixedWidth 2 (DateFromTime 1749599999000) = js ''10''"
    "fixedWidth 2 (HourFromTime 1749599999000) = js ''23''"
    "fixedWidth 2 (MinFromTime 1749599999000) = js ''59''"
    "fixedWidth 2 (SecFromTime 1749599999000) = js ''59''"
    by (simp_all add: fixedWidth_2 fixedWidth_4 date_eval js_def)
  show ?thesis
    using formatDateTo5545_shape [OF 1 2] 1 2 f by (simp add: js_def)
qed

theorem year_not_four_digits:
  "formatDateTo5545 (Num 253402300800000) = js ''100000101T000000Z''
   \<and> length (formatDateTo5545 (Num 253402300800000)) = 17
   \<and> formatDateTo5545 (Num (- 30610224000001)) = js ''9991231T235959Z''
   \<and> length (formatDateTo5545 (Num (- 30610224000001))) = 15"
  by (simp add: date_eval js_def)

subsection \<open>The lines of the event block\<close>

lemma dayMap_no_newline: "dayMap c = Some code \<Longrightarrow> 10 \<notin> set code"
  by (auto simp: dayMap_def js_def split: if_splits)

lemma mapDays_no_newline: "mapDays d = Inr cs \<Longrightarrow> \<forall>code\<in>set cs. 10 \<notin> set code"
proof (induction d arbitrary: cs)
  case Nil
  then show ?case by simp
next
  case (Cons c d)
  then show ?case
    by (auto split: option.splits sum.splits dest: dayMap_no_newline)
qed

lemma join_no_newline:
  "10 \<notin> set sep \<Longrightarrow> \<forall>x\<in>set xs. 10 \<notin> set x \<Longrightarrow> 10 \<notin> set (join sep xs)"
  by (induction sep xs rule: join.induct) auto

lemma splitOn_five:
  assumes "c \<notin> set l1" "c \<notin> set l2" "c \<notin> set l3" "c \<notin> set l4" "c \<notin> set l5"
  shows "splitOn c (join [c] [l1, l2, l3, l4, l5]) = [l1, l2, l3, l4, l5]"
  using assms by (simp add: splitOn_append splitOn_none)

text \<open>
  C2, as the code has it. Whenever the parser succeeds, the formatter returns a block of
  five lines (not six): \<open>BEGIN:VEVENT\<close>, the \<open>DTSTART:\<close> line, the \<open>DTEND:\<close> line, the
  \<open>RRULE\<close> line and \<open>END:VEVENT\<close>, in this order, joined by newline characters, with no
  newline at the end.
\<close>

theorem parseTo5545_five_lines:
  assumes "parseRecurrenceString s = Inr p"
  shows "\<exists>out. parseTo5545 tz a b s = Inr out
           \<and> splitOn 10 out =
               [js ''BEGIN:VEVENT'',
                js ''DTSTART:'' @
                  formatDateTo5545 (setTime tz a (hours (startTime p)) (minutes (startTime p))),
                js ''DTEND:'' @
                  formatDateTo5545 (setTime tz a (hours (endTime p)) (minutes (endTime p))),
                js ''RRULE:FREQ=WEEKLY;BYDAY='' @ join (js '','') (days p) @
                  js '';UNTIL='' @ formatDateTo5545 b,
                js ''END:VEVENT'']
           \<and> out = join [10] (splitOn 10 out)
           \<and> last out \<noteq> 10"
proof -
  let ?l2 = "js ''DTSTART:'' @
      formatDateTo5545 (setTime tz a (hours (startTime p)) (minutes (startTime p)))"
  let ?l3 = "js ''DTEND:'' @
      formatDateTo5545 (setTime tz a (hours (endTime p)) (minutes (endTime p)))"
  let ?l4 = "js ''RRULE:FREQ=WEEKLY;BYDAY='' @ join (js '','') (days p) @
      js '';UNTIL='' @ formatDateTo5545 b"
  let ?ls = "[js ''BEGIN:VEVENT'', ?l2, ?l3, ?l4, js ''END:VEVENT'']"
  have out: "parseTo5545 tz a b s = Inr (join [10] ?ls)"
    using assms by (simp add: parseTo5545_def Let_def)
  from parse_Inr [OF assms] obtain d where "mapDays d = Inr (days p)"
    by blast
  then have "\<forall>code\<in>set (days p). 10 \<notin> set code"
    by (rule mapDays_no_newline)
  then have "10 \<notin> set (join (js '','') (days p))"
    by (intro join_no_newline) (simp_all add: js_def)
  then have 4: "10 \<notin> set ?l4"
    by (simp add: formatDateTo5545_no_newline) (simp add: js_def)
  have 1: "10 \<notin> set (js ''BEGIN:VEVENT'')" and 5: "10 \<notin> set (js ''END:VEVENT'')"
    by (simp_all add: js_def)
  have 2: "10 \<notin> set ?l2" and 3: "10 \<notin> set ?l3"
    by (simp_all add: formatDateTo5545_no_newline) (simp_all add: js_def)
  have split: "splitOn 10 (join [10] ?ls) = ?ls"
    using 1 2 3 4 5 by (rule splitOn_five)
  have "last (join [10] ?ls) = last (js ''END:VEVENT'')"
    by (simp add: js_def)
  then have "last (join [10] ?ls) \<noteq> 10"
    by (simp add: js_def)
  then show ?thesis
    using out split by simp
qed

theorem parseTo5545_five_lines_witness:
  "parseRecurrenceString (js ''TR 2pm-3:15pm'') =
     Inr \<lparr>days = [js ''TU'', js ''TH''],
          startTime = \<lparr>hours = Num 14, minutes = Num 0\<rparr>,
          endTime = \<lparr>hours = Num 15, minutes = Num 15\<rparr>\<rparr>
   \<and> parseTo5545 utcHost (Num 1741564800000) (Num 1749599999000) (js ''TR 2pm-3:15pm'') =
       Inr (js ''BEGIN:VEVENT\<newline>DTSTART:20250310T140000Z\<newline>DTEND:20250310T151500Z\<newline>RRULE:FREQ=WEEKLY;BYDAY=TU,TH;UNTIL=20250610T235959Z\<newline>END:VEVENT'')
   \<and> splitOn 10 (js ''BEGIN:VEVENT\<newline>DTSTART:20250310T140000Z\<newline>DTEND:20250310T151500Z\<newline>RRULE:FREQ=WEEKLY;BYDAY=TU,TH;UNTIL=20250610T235959Z\<newline>END:VEVENT'') =
       [js ''BEGIN:VEVENT'', js ''DTSTART:20250310T140000Z'', js ''DTEND:20250310T151500Z'',
        js ''RRULE:FREQ=WEEKLY;BYDAY=TU,TH;UNTIL=20250610T235959Z'', js ''END:VEVENT'']"
proof -
  have 1: "parseRecurrenceString (js ''TR 2pm-3:15pm'') =
     Inr \<lparr>days = [js ''TU'', js ''TH''],
          startTime = \<lparr>hours = Num 14, minutes = Num 0\<rparr>,
          endTime = \<lparr>hours = Num 15, minutes = Num 15\<rparr>\<rparr>"
    by (simp add: parser_eval)
  have 2: "formatDateTo5545 (setTime utcHost (Num 1741564800000) (Num 14) (Num 0)) =
      js ''20250310T140000Z''"
    by (simp add: date_eval js_def)
  have 3: "formatDateTo5545 (setTime utcHost (Num 1741564800000) (Num 15) (Num 15)) =
      js ''20250310T151500Z''"
    by (simp add: date_eval js_def)
  have 4: "formatDateTo5545 (Num 1749599999000) = js ''20250610T235959Z''"
    by (simp add: date_eval js_def)
  show ?thesis
    using parseTo5545_five_lines [OF 1, of utcHost "Num 1741564800000" "Num 1749599999000"] 1
    by (auto simp: 2 3 4) (simp_all add: js_def)
qed

theorem five_lines_not_six:
  "parseTo5545 utcHost (Num 1741564800000) (Num 1749599999000) (js ''MWF 9am-10am'') =
     Inr (js ''BEGIN:VEVENT\<newline>DTSTART:20250310T090000Z\<newline>DTEND:20250310T100000Z\<newline>RRULE:FREQ=WEEKLY;BYDAY=MO,WE,FR;UNTIL=20250610T235959Z\<newline>END:VEVENT'')
   \<and> length (splitOn 10 (js ''BEGIN:VEVENT\<newline>DTSTART:20250310T090000Z\<newline>DTEND:20250310T100000Z\<newline>RRULE:FREQ=WEEKLY;BYDAY=MO,WE,FR;UNTIL=20250610T235959Z\<newline>END:VEVENT'')) = 5"
proof -
  have "parseTo5545 utcHost (Num 1741564800000) (Num 1749599999000) (js ''MWF 9am-10am'') =
     Inr (js ''BEGIN:VEVENT\<newline>DTSTART:20250310T090000Z\<newline>DTEND:20250310T100000Z\<newline>RRULE:FREQ=WEEKLY;BYDAY=MO,WE,FR;UNTIL=20250610T235959Z\<newline>END:VEVENT'')"
    by (simp add: parser_eval date_eval)
  moreover have "length (splitOn 10 (js ''BEGIN:VEVENT\<newline>DTSTART:20250310T090000Z\<newline>DTEND:20250310T100000Z\<newline>RRULE:FREQ=WEEKLY;BYDAY=MO,WE,FR;UNTIL=20250610T235959Z\<newline>END:VEVENT'')) = 5"
    by (simp add: js_def)
  ultimately show ?thesis by simp
qed

text \<open>
  C1, as the code has it. For the period from 2025-03-10T00:00:00Z to 2025-06-10T23:59:59Z
  and the text \<open>TR 11am-12:15pm\<close> the formatter succeeds on every host, and the \<open>RRULE\<close>
  line is the one expected. The \<open>DTSTART\<close> and \<open>DTEND\<close> lines are the UTC renderings
  of the instants that are 11:00:00 and 12:15:00 in local time on the local calendar
  date of the period start; they read 11:00:00 and 12:15:00 on March 10 on a host whose
  local time is UTC.
\<close>

theorem parseTo5545_scenario:
  "parseTo5545 tz (Num 1741564800000) (Num 1749599999000) (js ''TR 11am-12:15pm'') =
     Inr (js ''BEGIN:VEVENT'' @ [10] @
          js ''DTSTART:'' @
            formatDateTo5545 (setTime tz (Num 1741564800000) (Num 11) (Num 0)) @ [10] @
          js ''DTEND:'' @
            formatDateTo5545 (setTime tz (Num 1741564800000) (Num 12) (Num 15)) @ [10] @
          js ''RRULE:FREQ=WEEKLY;BYDAY=TU,TH;UNTIL=20250610T235959Z'' @ [10] @
          js ''END:VEVENT'')
   \<and> setTime tz (Num 1741564800000) (Num 11) (Num 0) =
       TimeClip (UTC tz (Day (LocalTime tz 1741564800000) * msPerDay + 11 * 3600000))
   \<and> setTime tz (Num 1741564800000) (Num 12) (Num 15) =
       TimeClip (UTC tz (Day (LocalTime tz 1741564800000) * msPerDay + 12 * 3600000 + 15 * 60000))
   \<and> parseTo5545 utcHost (Num 1741564800000) (Num 1749599999000) (js ''TR 11am-12:15pm'') =
       Inr (js ''BEGIN:VEVENT\<newline>DTSTART:20250310T110000Z\<newline>DTEND:20250310T121500Z\<newline>RRULE:FREQ=WEEKLY;BYDAY=TU,TH;UNTIL=20250610T235959Z\<newline>END:VEVENT'')"
proof -
  have p: "parseRecurrenceString (js ''TR 11am-12:15pm'') =
      Inr \<lparr>days = [js ''TU'', js ''TH''],
           startTime = \<lparr>hours = Num 11, minutes = Num 0\<rparr>,
           endTime = \<lparr>hours = Num 12, minutes = Num 15\<rparr>\<rparr>"
    by (simp add: parser_eval)
  have f: "formatDateTo5545 (Num 1749599999000) = js ''20250610T235959Z''"
    by (simp add: date_eval js_def)
  have 1: "parseTo5545 tz (Num 1741564800000) (Num 1749599999000) (js ''TR 11am-12:15pm'') =
     Inr (js ''BEGIN:VEVENT'' @ [10] @
          js ''DTSTART:'' @
            formatDateTo5545 (setTime tz (Num 1741564800000) (Num 11) (Num 0)) @ [10] @
          js ''DTEND:'' @
            formatDateTo5545 (setTime tz (Num 1741564800000) (Num 12) (Num 15)) @ [10] @
          js ''RRULE:FREQ=WEEKLY;BYDAY=TU,TH;UNTIL=20250610T235959Z'' @ [10] @
          js ''END:VEVENT'')" for tz
    by (simp add: parseTo5545_def p f Let_def) (simp add: js_def)
  have 2: "setTime tz (Num 1741564800000) (Num 11) (Num 0) =
       TimeClip (UTC tz (Day (LocalTime tz 1741564800000) * msPerDay + 11 * 3600000))"
    by (simp add: setTime_def setHours_def MakeDate_def)
  have 3: "setTime tz (Num 1741564800000) (Num 12) (Num 15) =
       TimeClip (UTC tz (Day (LocalTime tz 1741564800000) * msPerDay + 12 * 3600000 + 15 * 60000))"
    by (simp add: setTime_def setHours_def MakeDate_def add.commute)
  have 4: "formatDateTo5545 (setTime utcHost (Num 1741564800000) (Num 11) (Num 0)) =
      js ''20250310T110000Z''"
    by (simp add: date_eval js_def)
  have 5: "formatDateTo5545 (setTime utcHost (Num 1741564800000) (Num 12) (Num 15)) =
      js ''20250310T121500Z''"
    by (simp add: date_eval js_def)
  have "parseTo5545 utcHost (Num 1741564800000) (Num 1749599999000) (js ''TR 11am-12:15pm'') =
       Inr (js ''BEGIN:VEVENT\<newline>DTSTART:20250310T110000Z\<newline>DTEND:20250310T121500Z\<newline>RRULE:FREQ=WEEKLY;BYDAY=TU,TH;UNTIL=20250610T235959Z\<newline>END:VEVENT'')"
    unfolding 1 4 5 by (simp add: js_def)
  with 1 2 3 show ?thesis by simp
qed

theorem parseTo5545_scenario_witness:
  "parseTo5545 (fixedOffset 3600000) (Num 1741564800000) (Num 1749599999000)
       (js ''TR 11am-12:15pm'') =
     Inr (js ''BEGIN:VEVENT\<newline>DTSTART:20250310T100000Z\<newline>DTEND:20250310T111500Z\<newline>RRULE:FREQ=WEEKLY;BYDAY=TU,TH;UNTIL=20250610T235959Z\<newline>END:VEVENT'')"
proof -
  have 1: "formatDateTo5545 (setTime (fixedOffset 3600000) (Num 1741564800000) (Num 11) (Num 0)) =
      js ''20250310T100000Z''"
    by (simp add: date_eval js_def)
  have 2: "formatDateTo5545 (setTime (fixedOffset 3600000) (Num 1741564800000) (Num 12) (Num 15)) =
      js ''20250310T111500Z''"
    by (simp add: date_eval js_def)
  show ?thesis
    using parseTo5545_scenario [of "fixedOffset 3600000", THEN conjunct1]
    unfolding 1 2 by (simp add: js_def)
qed

theorem start_time_west_of_utc:
  "parseTo5545 (fixedOffset (- 18000000)) (Num 1741564800000) (Num 1749599999000)
       (js ''TR 11am-12:15pm'') =
     Inr (js ''BEGIN:VEVENT\<newline>DTSTART:20250309T160000Z\<newline>DTEND:20250309T171500Z\<newline>RRULE:FREQ=WEEKLY;BYDAY=TU,TH;UNTIL=20250610T235959Z\<newline>END:VEVENT'')"
  by (simp add: parser_eval date_eval)

lemma toISOString_cases:
  "(d = NaN \<and> toISOString d = Inl RangeError) \<or> (\<exists>t x. d = Num t \<and> toISOString d = Inr x)"
  by (cases d) (simp_all add: toISOString_def)

text \<open>
  C8, as the code has it. The iCalendar formatter fails exactly when the parser fails, with
  the parser's error. The JSON formatter fails with the parser's error whenever the parser
  fails; when the parser succeeds it validates nothing either, but \<open>toISOString\<close> throws a
  \<open>RangeError\<close> on an invalid date, so it fails exactly when the start instant, the end
  instant or the period end is an invalid date, and then with that \<open>RangeError\<close>.
\<close>

theorem formatter_failures:
  "(parseTo5545 tz a b s = Inl e \<longleftrightarrow> parseRecurrenceString s = Inl e)
   \<and> (parseRecurrenceString s = Inl e \<longrightarrow> parseTo8984 tz a b s = Inl e)
   \<and> (\<forall>p. parseRecurrenceString s = Inr p \<longrightarrow>
         (parseTo8984 tz a b s = Inl e \<longleftrightarrow>
            e = RangeError
            \<and> (setTime tz a (hours (startTime p)) (minutes (startTime p)) = NaN
               \<or> setTime tz a (hours (endTime p)) (minutes (endTime p)) = NaN
               \<or> b = NaN)))"
proof (cases "parseRecurrenceString s")
  case (Inl e')
  then show ?thesis
    by (simp add: parseTo5545_def parseTo8984_def)
next
  case (Inr p)
  have "parseTo5545 tz a b s \<noteq> Inl e"
    using Inr by (simp add: parseTo5545_def Let_def)
  moreover have "parseTo8984 tz a b s = Inl e \<longleftrightarrow>
      e = RangeError
      \<and> (setTime tz a (hours (startTime p)) (minutes (startTime p)) = NaN
         \<or> setTime tz a (hours (endTime p)) (minutes (endTime p)) = NaN
         \<or> b = NaN)"
  proof -
    define d1 where "d1 = setTime tz a (hours (startTime p)) (minutes (startTime p))"
    define d2 where "d2 = setTime tz a (hours (endTime p)) (minutes (endTime p))"
    have "parseTo8984 tz a b s =
        (case toISOString d1 of
           Inl e \<Rightarrow> Inl e
         | Inr s1 \<Rightarrow>
             (case toISOString d2 of
                Inl e \<Rightarrow> Inl e
              | Inr s2 \<Rightarrow>
                  (case toISOString b of
                     Inl e \<Rightarrow> Inl e
                   | Inr s3 \<Rightarrow>
                       Inr \<lparr>dtstart = s1, dtend = s2,
                            recurrence = \<lparr>frequency = js ''WEEKLY'',
                              byDay = days p, until = s3\<rparr>\<rparr>)))"
      using Inr unfolding d1_def d2_def by (simp add: parseTo8984_def Let_def)
    then have "parseTo8984 tz a b s = Inl e \<longleftrightarrow>
        e = RangeError \<and> (d1 = NaN \<or> d2 = NaN \<or> b = NaN)"
      using toISOString_cases [of d1] toISOString_cases [of d2] toISOString_cases [of b]
      by (elim disjE exE conjE) auto
    then show ?thesis
      by (simp add: d1_def d2_def)
  qed
  ultimately show ?thesis
    using Inr by simp
qed

theorem formatter_failures_witness:
  "parseRecurrenceString (js ''MWF sometime'') = Inl TimesNotFound
   \<and> parseTo5545 utcHost (Num 1741564800000) (Num 1749599999000) (js ''MWF sometime'') =
       Inl TimesNotFound
   \<and> parseTo8984 utcHost (Num 1741564800000) (Num 1749599999000) (js ''MWF sometime'') =
       Inl TimesNotFound
   \<and> parseRecurrenceString (js ''M 8am-9:40am'') =
       Inr \<lparr>days = [js ''MO''],
            startTime = \<lparr>hours = Num 8, minutes = Num 0\<rparr>,
            endTime = \<lparr>hours = Num 9, minutes = Num 40\<rparr>\<rparr>
   \<and> setTime utcHost (Num 1741564800000) (Num 8) (Num 0) = Num 1741593600000
   \<and> setTime utcHost (Num 1741564800000) (Num 9) (Num 40) = Num 1741599600000
   \<and> parseTo5545 utcHost (Num 1741564800000) (Num 1749599999000) (js ''M 8am-9:40am'') \<noteq>
       Inl RangeError
   \<and> parseTo8984 utcHost (Num 1741564800000) (Num 1749599999000) (js ''M 8am-9:40am'') \<noteq>
       Inl RangeError"
proof -
  have 1: "parseRecurrenceString (js ''MWF sometime'') = Inl TimesNotFound"
    by (simp add: parser_eval)
  have 2: "parseRecurrenceString (js ''M 8am-9:40am'') =
       Inr \<lparr>days = [js ''MO''],
            startTime = \<lparr>hours = Num 8, minutes = Num 0\<rparr>,
            endTime = \<lparr>hours = Num 9, minutes = Num 40\<rparr>\<rparr>"
    by (simp add: parser_eval)
  have 3: "setTime utcHost (Num 1741564800000) (Num 8) (Num 0) = Num 1741593600000"
    "setTime utcHost (Num 1741564800000) (Num 9) (Num 40) = Num 1741599600000"
    by (simp_all add: date_eval)
  show ?thesis
    using formatter_failures [of utcHost "Num 1741564800000" "Num 1749599999000"
        "js ''MWF sometime''" TimesNotFound]
      formatter_failures [of utcHost "Num 1741564800000" "Num 1749599999000"
        "js ''M 8am-9:40am''" RangeError]
      1 2 3
    by simp
qed

theorem json_formatter_range_error:
  "parseRecurrenceString (js ''M 8am-9:40am'') =
     Inr \<lparr>days = [js ''MO''],
          startTime = \<lparr>hours = Num 8, minutes = Num 0\<rparr>,
          endTime = \<lparr>hours = Num 9, minutes = Num 40\<rparr>\<rparr>
   \<and> parseTo8984 utcHost (Num 8640000000000000) (Num 1749599999000) (js ''M 8am-9:40am'') =
       Inl RangeError
   \<and> parseTo8984 utcHost (Num 1741564800000) NaN (js ''M 8am-9:40am'') = Inl RangeError"
  by (simp add: parser_eval date_eval)

end
